theory Spec2Isabelle
  imports Complex_Main
begin

section \<open>Period and ledger engine of the savings API\<close>

text \<open>
  The development embeds the route handlers of \<^verbatim>\<open>routes/savings.js\<close> (budget periods,
  called \<^emph>\<open>savings\<close> in the code) and \<^verbatim>\<open>routes/transactions.js\<close> (the ledger) together
  with the two tables of the migration they work on.

  Conventions of the embedding.
  \<^item> A JSON number is a \<open>real\<close> (amounts, columns of type DOUBLE) or an \<open>int\<close> (ids, month,
    year, week number, columns of type INTEGER); rounding of doubles, \<open>NaN\<close> and the range
    limits of doubles, of \<open>Date\<close> and of INTEGER columns are not represented.
  \<^item> A field of a request body is an \<open>option\<close>: \<open>None\<close> is a field that is absent
    (\<open>undefined\<close>). Bodies carry numbers and strings; on a number \<open>parseFloat\<close> and
    \<open>parseInt\<close> are the identity.
  \<^item> A \<open>Date\<close> is its time value, the milliseconds since the epoch; the server's local
    time zone is taken to be UTC.
  \<^item> A handler takes the authenticated user id (\<open>req.user.id\<close>), its input and the
    database, and returns the response together with the database after the request.
    A response is \<open>Inl\<close> of an error (status 400, 404 or 500) or \<open>Inr\<close> of the JSON
    payload. An exception of the ORM is caught by the handler and answered with status 500.
  \<^item> The columns \<open>createdAt\<close> and \<open>updatedAt\<close>, which no handler reads, are left out.
\<close>

subsection \<open>Dates\<close>

text \<open>
  The handlers use \<open>new Date(year, month, 0).getDate()\<close> and \<open>date.getDate()\<close>. The
  functions below follow the definitions of the ECMAScript language specification (section
  "Time Values and Time Range"), on day numbers and years as integers.
\<close>

definition msPerDay :: int where
  "msPerDay = 86400000"

definition Day :: "int \<Rightarrow> int" where
  "Day t = t div msPerDay"

definition DaysInYear :: "int \<Rightarrow> int" where
  "DaysInYear y =
     (if y mod 4 \<noteq> 0 then 365 else if y mod 100 \<noteq> 0 then 366
      else if y mod 400 \<noteq> 0 then 365 else 366)"

definition DayFromYear :: "int \<Rightarrow> int" where
  "DayFromYear y =
     365 * (y - 1970) + (y - 1969) div 4 - (y - 1901) div 100 + (y - 1601) div 400"

text \<open>
  \<open>YearFromTime\<close> is specified as the largest year whose first day is not after the given
  day. It is computed from an estimate that is off by one year at most.
\<close>

definition YearFromDay :: "int \<Rightarrow> int" where
  "YearFromDay d =
     (let e = 1970 + (400 * d) div 146097
      in if d < DayFromYear e then e - 1
         else if DayFromYear (e + 1) \<le> d then e + 1
         else e)"

definition InLeapYear :: "int \<Rightarrow> int" where
  "InLeapYear y = (if DaysInYear y = 366 then 1 else 0)"

definition MonthFromDayWithinYear :: "int \<Rightarrow> int \<Rightarrow> int" where
  "MonthFromDayWithinYear l dwy =
     (if dwy < 31 then 0 else if dwy < 59 + l then 1 else if dwy < 90 + l then 2
      else if dwy < 120 + l then 3 else if dwy < 151 + l then 4
      else if dwy < 181 + l then 5 else if dwy < 212 + l then 6
      else if dwy < 243 + l then 7 else if dwy < 273 + l then 8
      else if dwy < 304 + l then 9 else if dwy < 334 + l then 10 else 11)"

definition DateFromDayWithinYear :: "int \<Rightarrow> int \<Rightarrow> int" where
  "DateFromDayWithinYear l dwy =
     (let m = MonthFromDayWithinYear l dwy in
      if m = 0 then dwy + 1 else if m = 1 then dwy - 30
      else if m = 2 then dwy - 58 - l else if m = 3 then dwy - 89 - l
      else if m = 4 then dwy - 119 - l else if m = 5 then dwy - 150 - l
      else if m = 6 then dwy - 180 - l else if m = 7 then dwy - 211 - l
      else if m = 8 then dwy - 242 - l else if m = 9 then dwy - 272 - l
      else if m = 10 then dwy - 303 - l else dwy - 333 - l)"

definition DateFromTime :: "int \<Rightarrow> int" where
  "DateFromTime t =
     (let d = Day t; y = YearFromDay d
      in DateFromDayWithinYear (InLeapYear y) (d - DayFromYear y))"

text \<open>The day within its year on which month \<open>mn\<close> (counted from 0) begins.\<close>

definition monthStart :: "int \<Rightarrow> int \<Rightarrow> int" where
  "monthStart l mn =
     (if mn = 0 then 0 else if mn = 1 then 31 else if mn = 2 then 59 + l
      else if mn = 3 then 90 + l else if mn = 4 then 120 + l
      else if mn = 5 then 151 + l else if mn = 6 then 181 + l
      else if mn = 7 then 212 + l else if mn = 8 then 243 + l
      else if mn = 9 then 273 + l else if mn = 10 then 304 + l else 334 + l)"

definition MakeDay :: "int \<Rightarrow> int \<Rightarrow> int \<Rightarrow> int" where
  "MakeDay yr mo dt =
     (let ym = yr + mo div 12; mn = mo mod 12
      in DayFromYear ym + monthStart (InLeapYear ym) mn + dt - 1)"

text \<open>
  \<open>new Date(year, month, date)\<close>: a year from 0 to 99 stands for 1900 to 1999, the month
  counts from 0, and a month or date out of range carries over.
\<close>

definition newDate :: "int \<Rightarrow> int \<Rightarrow> int \<Rightarrow> int" where
  "newDate yr mo dt =
     (let y = (if 0 \<le> yr \<and> yr \<le> 99 then 1900 + yr else yr)
      in MakeDay y mo dt * msPerDay)"

definition getDate :: "int \<Rightarrow> int" where
  "getDate t = DateFromTime t"

text \<open>
  The calendar as the specification words it: the number of days of a month (1 to 12) of a
  year, with the leap years of the Gregorian calendar.
\<close>

definition isLeapYear :: "int \<Rightarrow> bool" where
  "isLeapYear y = (y mod 4 = 0 \<and> (y mod 100 \<noteq> 0 \<or> y mod 400 = 0))"

definition calendarDays :: "int \<Rightarrow> int \<Rightarrow> int" where
  "calendarDays mo yr =
     (if mo = 2 then (if isLeapYear yr then 29 else 28)
      else if mo = 4 \<or> mo = 6 \<or> mo = 9 \<or> mo = 11 then 30 else 31)"

subsection \<open>Number formatting\<close>

text \<open>
  \<open>x.toFixed(2)\<close>: the sign, then the integer nearest to \<open>100 * |x|\<close> (the larger one of
  two) written with two digits after the point. The exponent notation for \<open>|x| \<ge> 10\<^sup>2\<^sup>1\<close>
  is not represented.
\<close>

definition digitChar :: "nat \<Rightarrow> char" where
  "digitChar n = ''0123456789'' ! n"

fun showNat :: "nat \<Rightarrow> string" where
  "showNat n = (if n < 10 then [digitChar n] else showNat (n div 10) @ [digitChar (n mod 10)])"

declare showNat.simps [simp del]

definition toFixed2 :: "real \<Rightarrow> string" where
  "toFixed2 x =
     (let n = nat \<lfloor>\<bar>x\<bar> * 100 + 1 / 2\<rfloor>
      in (if x < 0 then ''-'' else '''') @ showNat (n div 100) @ ''.''
           @ [digitChar (n mod 100 div 10), digitChar (n mod 10)])"

subsection \<open>Tables\<close>

text \<open>The tables \<open>savings\<close> and \<open>transactions\<close> of the migration.\<close>

record saving =
  s_id :: int
  s_userId :: int
  monthlyIncome :: real
  savingTarget :: real
  availableAmount :: real
  dailyBudget :: real
  period :: string
  month :: int
  year :: int
  weekNumber :: "int option"

record transaction =
  t_id :: int
  t_userId :: int
  savingId :: int
  amount :: real
  t_type :: string
  description :: "string option"
  date :: int

text \<open>
  The database: the rows of both tables in the order of their insertion, and the next
  values of the two AUTO_INCREMENT counters.
\<close>

record db =
  savings :: "saving list"
  transactions :: "transaction list"
  nextSavingId :: int
  nextTransactionId :: int

datatype error =
    ValidationError string
  | NotFound string
  | Conflict string nat
  | InternalError string

definition isValidationError :: "error + 'a \<Rightarrow> bool" where
  "isValidationError r = (case r of Inl (ValidationError _) \<Rightarrow> True | _ \<Rightarrow> False)"

definition isNotFound :: "error + 'a \<Rightarrow> bool" where
  "isNotFound r = (case r of Inl (NotFound _) \<Rightarrow> True | _ \<Rightarrow> False)"

text \<open>
  JavaScript truthiness of a body field: \<open>undefined\<close>, the number 0 and the empty string
  are falsy.
\<close>

definition truthy :: "'a::zero option \<Rightarrow> bool" where
  "truthy v = (case v of None \<Rightarrow> False | Some x \<Rightarrow> x \<noteq> 0)"

definition truthyString :: "string option \<Rightarrow> bool" where
  "truthyString v = (case v of None \<Rightarrow> False | Some x \<Rightarrow> x \<noteq> [])"

subsection \<open>Queries of the ORM\<close>

text \<open>
  \<open>prisma.saving.delete\<close> removes the row; the foreign key of \<open>transactions.savingId\<close> is
  declared ON DELETE CASCADE, so the transactions of the row go with it.
\<close>

definition savingDelete :: "int \<Rightarrow> db \<Rightarrow> db" where
  "savingDelete i s =
     s\<lparr>savings := filter (\<lambda>r. s_id r \<noteq> i) (savings s),
       transactions := filter (\<lambda>t. savingId t \<noteq> i) (transactions s)\<rparr>"

definition transactionDeleteMany :: "int \<Rightarrow> db \<Rightarrow> db" where
  "transactionDeleteMany i s =
     s\<lparr>transactions := filter (\<lambda>t. savingId t \<noteq> i) (transactions s)\<rparr>"

definition transactionDelete :: "int \<Rightarrow> db \<Rightarrow> db" where
  "transactionDelete i s =
     s\<lparr>transactions := filter (\<lambda>t. t_id t \<noteq> i) (transactions s)\<rparr>"

definition savingUpdate :: "int \<Rightarrow> (saving \<Rightarrow> saving) \<Rightarrow> db \<Rightarrow> db" where
  "savingUpdate i f s =
     s\<lparr>savings := map (\<lambda>r. if s_id r = i then f r else r) (savings s)\<rparr>"

definition transactionUpdate :: "int \<Rightarrow> (transaction \<Rightarrow> transaction) \<Rightarrow> db \<Rightarrow> db" where
  "transactionUpdate i f s =
     s\<lparr>transactions := map (\<lambda>t. if t_id t = i then f t else t) (transactions s)\<rparr>"

definition savingCreate :: "saving \<Rightarrow> db \<Rightarrow> saving \<times> db" where
  "savingCreate r s =
     (let row = r\<lparr>s_id := nextSavingId s\<rparr>
      in (row, s\<lparr>savings := savings s @ [row], nextSavingId := nextSavingId s + 1\<rparr>))"

definition transactionCreate :: "transaction \<Rightarrow> db \<Rightarrow> transaction \<times> db" where
  "transactionCreate t s =
     (let row = t\<lparr>t_id := nextTransactionId s\<rparr>
      in (row, s\<lparr>transactions := transactions s @ [row],
                  nextTransactionId := nextTransactionId s + 1\<rparr>))"

text \<open>
  \<open>orderBy: { date: 'desc' }\<close>, and \<open>orderBy: [{ year: 'desc' }, { month: 'desc' }]\<close>. The
  store leaves the order of rows with equal keys open; here they keep the order of the table.
\<close>

definition orderByDateDesc :: "transaction list \<Rightarrow> transaction list" where
  "orderByDateDesc ts = sort_key (\<lambda>t. - date t) ts"

definition orderByYearMonthDesc :: "saving list \<Rightarrow> saving list" where
  "orderByYearMonthDesc rs = sort_key (\<lambda>r. - year r) (sort_key (\<lambda>r. - month r) rs)"

text \<open>
  The columns of the table \<open>savings\<close> in the migration. A query whose \<open>select\<close> names a field
  that the table does not have is refused by the ORM with an exception.
\<close>

definition savingColumns :: "string list" where
  "savingColumns =
     [''id'', ''userId'', ''monthlyIncome'', ''savingTarget'', ''availableAmount'',
      ''dailyBudget'', ''period'', ''month'', ''year'', ''weekNumber'', ''createdAt'',
      ''updatedAt'']"

definition selectable :: "string list \<Rightarrow> bool" where
  "selectable names = list_all (\<lambda>c. c \<in> set savingColumns) names"

text \<open>\<open>include: { transactions: true }\<close> and \<open>include: { saving: ... }\<close>.\<close>

definition transactionsOf :: "db \<Rightarrow> saving \<Rightarrow> transaction list" where
  "transactionsOf s r = filter (\<lambda>t. savingId t = s_id r) (transactions s)"

definition savingOf :: "db \<Rightarrow> transaction \<Rightarrow> saving option" where
  "savingOf s t = find (\<lambda>r. s_id r = savingId t) (savings s)"

subsection \<open>POST /savings\<close>

record savingBody =
  b_monthlyIncome :: "real option"
  b_savingTarget :: "real option"
  b_period :: "string option"
  b_month :: "int option"
  b_year :: "int option"
  b_weekNumber :: "int option"

text \<open>What the handler has computed once all its checks have passed.\<close>

record periodData =
  finalMonthlyIncome :: real
  finalSavingTarget :: real
  finalAvailableAmount :: real
  finalDailyBudget :: real
  d_period :: string
  d_month :: int
  d_year :: int
  d_weekNumber :: "int option"

text \<open>
  \<open>period = 'monthly'\<close> in the destructuring of the body: the default stands in for an
  absent field. Then the checks of the handler, in their order; each failing check answers
  with status 400 before the database is touched. The handler computes the day count and
  the daily budget ahead of the checks, where month and year may still be absent; the
  values are used after the checks only, so they are computed here where month and year
  are known. On the weekly path the week number is checked last; on the other path it is
  not read.
\<close>

definition periodOf :: "savingBody \<Rightarrow> string" where
  "periodOf body = (case b_period body of None \<Rightarrow> ''monthly'' | Some p \<Rightarrow> p)"

definition checkBody :: "savingBody \<Rightarrow> error + periodData" where
  "checkBody body =
     (let per = periodOf body in
      if \<not> truthy (b_monthlyIncome body) \<or> \<not> truthy (b_savingTarget body) then
        Inl (ValidationError ''Monthly income and saving target are required'')
      else
        let income = the (b_monthlyIncome body);
            target = the (b_savingTarget body);
            available = income - target
        in
        if income \<le> 0 then Inl (ValidationError ''Monthly income must be positive'')
        else if target < 0 then Inl (ValidationError ''Saving target cannot be negative'')
        else if target \<ge> income then
          Inl (ValidationError ''Saving target cannot be equal or greater than monthly income'')
        else if \<not> truthy (b_month body) \<or> \<not> truthy (b_year body) then
          Inl (ValidationError ''Month and year are required'')
        else
          let mo = the (b_month body); yr = the (b_year body) in
          if mo < 1 \<or> mo > 12 then Inl (ValidationError ''Month must be between 1 and 12'')
          else
            let days = (if per = ''weekly'' then 7 else getDate (newDate yr mo 0)) in
            if per = ''weekly'' \<and> \<not> truthy (b_weekNumber body) then
              Inl (ValidationError ''Week number is required for weekly savings'')
            else
              Inr \<lparr>finalMonthlyIncome = income, finalSavingTarget = target,
                   finalAvailableAmount = available,
                   finalDailyBudget = available / real_of_int days,
                   d_period = per, d_month = mo, d_year = yr,
                   d_weekNumber = b_weekNumber body\<rparr>)"

text \<open>
  The \<open>update\<close> and the \<open>create\<close> data of both write paths; the week number of a new row
  is \<open>parseInt(weekNumber)\<close> on the weekly path and \<open>null\<close> on the other.
\<close>

definition updateData :: "periodData \<Rightarrow> saving \<Rightarrow> saving" where
  "updateData d r =
     r\<lparr>monthlyIncome := finalMonthlyIncome d, savingTarget := finalSavingTarget d,
       availableAmount := finalAvailableAmount d, dailyBudget := finalDailyBudget d,
       period := d_period d\<rparr>"

definition createData :: "int \<Rightarrow> periodData \<Rightarrow> int option \<Rightarrow> saving" where
  "createData userId d wk =
     \<lparr>s_id = 0, s_userId = userId,
      monthlyIncome = finalMonthlyIncome d, savingTarget = finalSavingTarget d,
      availableAmount = finalAvailableAmount d, dailyBudget = finalDailyBudget d,
      period = d_period d, month = d_month d, year = d_year d,
      weekNumber = wk\<rparr>"

text \<open>
  \<open>prisma.saving.upsert\<close> on the unique key \<open>userId_month_year_weekNumber\<close>: the row with
  the key is updated, and created when there is none.
\<close>

definition savingUpsert ::
    "int \<times> int \<times> int \<times> int \<Rightarrow> (saving \<Rightarrow> saving) \<Rightarrow> saving \<Rightarrow> db \<Rightarrow> saving \<times> db" where
  "savingUpsert k upd cre s =
     (let hasKey = (\<lambda>r. (s_userId r, month r, year r, weekNumber r)
                           = (fst k, fst (snd k), fst (snd (snd k)), Some (snd (snd (snd k)))))
      in case find hasKey (savings s) of
           Some existing \<Rightarrow>
             (upd existing,
              s\<lparr>savings := map (\<lambda>r. if hasKey r then upd r else r) (savings s)\<rparr>)
         | None \<Rightarrow> savingCreate cre s)"

text \<open>
  The write of the handler: the upsert for a weekly period; otherwise \<open>findFirst\<close> with
  \<open>weekNumber: null\<close>, then \<open>update\<close> of the row found, by its id, or \<open>create\<close>.
\<close>

definition writePeriod :: "int \<Rightarrow> periodData \<Rightarrow> db \<Rightarrow> saving \<times> db" where
  "writePeriod userId d s =
     (if d_period d = ''weekly'' then
        savingUpsert (userId, d_month d, d_year d, the (d_weekNumber d))
          (updateData d) (createData userId d (Some (the (d_weekNumber d)))) s
      else
        case find (\<lambda>r. s_userId r = userId \<and> month r = d_month d \<and> year r = d_year d
                         \<and> weekNumber r = None) (savings s) of
          Some existingSaving \<Rightarrow>
            (updateData d existingSaving,
             savingUpdate (s_id existingSaving) (updateData d) s)
        | None \<Rightarrow> savingCreate (createData userId d None) s)"

definition upsertPeriod :: "int \<Rightarrow> savingBody \<Rightarrow> db \<Rightarrow> (error + saving) \<times> db" where
  "upsertPeriod userId body s =
     (case checkBody body of
        Inl e \<Rightarrow> (Inl e, s)
      | Inr d \<Rightarrow> (let (row, s') = writePeriod userId d s in (Inr row, s')))"

subsection \<open>GET /savings/all and GET /savings/:year/:month\<close>

record summary =
  totalSpent :: real
  remainingBudget :: real
  transactionCount :: nat

record savingWithSummary =
  l_saving :: saving
  l_transactions :: "transaction list"
  l_summary :: summary

definition sumAmounts :: "transaction list \<Rightarrow> real" where
  "sumAmounts ts = foldl (\<lambda>acc t. acc + amount t) 0 ts"

definition listPeriods :: "int \<Rightarrow> db \<Rightarrow> savingWithSummary list" where
  "listPeriods userId s =
     map (\<lambda>r. let ts = transactionsOf s r; spent = sumAmounts ts in
            \<lparr>l_saving = r, l_transactions = ts,
             l_summary = \<lparr>totalSpent = spent, remainingBudget = availableAmount r - spent,
                          transactionCount = length ts\<rparr>\<rparr>)
         (orderByYearMonthDesc (filter (\<lambda>r. s_userId r = userId) (savings s)))"

record monthSummary =
  m_totalSpent :: real
  m_remainingBudget :: real
  m_expectedSpent :: real
  m_difference :: real
  m_daysInMonth :: int
  m_currentDay :: int

record savingOfMonth =
  g_saving :: saving
  g_transactions :: "transaction list"
  g_summary :: monthSummary

text \<open>The argument \<open>now\<close> is the clock of the server, read by \<open>new Date()\<close>.\<close>

definition getPeriod :: "int \<Rightarrow> int \<Rightarrow> int \<Rightarrow> int \<Rightarrow> db \<Rightarrow> error + savingOfMonth" where
  "getPeriod userId now yr mo s =
     (case find (\<lambda>r. s_userId r = userId \<and> month r = mo \<and> year r = yr
                      \<and> weekNumber r = None) (savings s) of
        None \<Rightarrow> Inl (NotFound ''Savings not found for this month'')
      | Some r \<Rightarrow>
          let ts = orderByDateDesc (transactionsOf s r);
              spent = sumAmounts ts;
              currentDay = getDate now;
              expected = dailyBudget r * real_of_int currentDay
          in Inr \<lparr>g_saving = r, g_transactions = ts,
                  g_summary = \<lparr>m_totalSpent = spent,
                               m_remainingBudget = availableAmount r - spent,
                               m_expectedSpent = expected,
                               m_difference = expected - spent,
                               m_daysInMonth = getDate (newDate yr mo 0),
                               m_currentDay = currentDay\<rparr>\<rparr>)"

subsection \<open>DELETE /savings/:id and DELETE /savings/:id/force\<close>

record deletedSaving =
  x_id :: int
  x_month :: int
  x_year :: int

definition deletePeriod :: "int \<Rightarrow> int \<Rightarrow> db \<Rightarrow> (error + deletedSaving) \<times> db" where
  "deletePeriod userId i s =
     (case find (\<lambda>r. s_id r = i \<and> s_userId r = userId) (savings s) of
        None \<Rightarrow> (Inl (NotFound ''Saving not found or does not belong to you''), s)
      | Some r \<Rightarrow>
          if length (transactionsOf s r) > 0 then
            (Inl (Conflict
               ''Cannot delete saving with existing transactions. Please delete all transactions first.''
               (length (transactionsOf s r))), s)
          else
            (Inr \<lparr>x_id = s_id r, x_month = month r, x_year = year r\<rparr>, savingDelete i s))"

text \<open>
  Both statements of \<open>prisma.$transaction\<close> take effect together: the model has no state
  between them.
\<close>

definition forceDeletePeriod ::
    "int \<Rightarrow> int \<Rightarrow> db \<Rightarrow> (error + deletedSaving \<times> nat) \<times> db" where
  "forceDeletePeriod userId i s =
     (case find (\<lambda>r. s_id r = i \<and> s_userId r = userId) (savings s) of
        None \<Rightarrow> (Inl (NotFound ''Saving not found or does not belong to you''), s)
      | Some r \<Rightarrow>
          let transactionCount = length (transactionsOf s r) in
          (Inr (\<lparr>x_id = s_id r, x_month = month r, x_year = year r\<rparr>, transactionCount),
           savingDelete i (transactionDeleteMany i s)))"

subsection \<open>POST /transactions\<close>

record transactionBody =
  b_amount :: "real option"
  b_description :: "string option"
  b_date :: "int option"
  b_savingId :: "int option"

definition createTransaction ::
    "int \<Rightarrow> int \<Rightarrow> transactionBody \<Rightarrow> db \<Rightarrow> (error + transaction \<times> saving) \<times> db" where
  "createTransaction userId now body s =
     (if \<not> truthy (b_amount body) \<or> \<not> truthy (b_savingId body) then
        (Inl (ValidationError ''Amount and saving ID are required''), s)
      else if the (b_amount body) \<le> 0 then
        (Inl (ValidationError ''Amount must be positive''), s)
      else
        case find (\<lambda>r. s_id r = the (b_savingId body) \<and> s_userId r = userId) (savings s) of
          None \<Rightarrow> (Inl (NotFound ''Saving not found''), s)
        | Some r \<Rightarrow>
            let (row, s') = transactionCreate
                  \<lparr>t_id = 0, t_userId = userId, savingId = the (b_savingId body),
                   amount = the (b_amount body), t_type = ''expense'',
                   description =
                     Some (if truthyString (b_description body) then the (b_description body)
                           else ''''),
                   date = (if truthy (b_date body) then the (b_date body) else now)\<rparr> s
            in (Inr (row, r), s'))"

subsection \<open>GET /transactions/saving/:savingId and GET /transactions\<close>

record transactionWithCalculations =
  c_transaction :: transaction
  runningTotal :: real
  expectedSpent :: real
  difference :: string

text \<open>
  The callback of \<open>transactions.map\<close>, with the variable \<open>runningTotal\<close> that it updates as
  an argument: the rows are visited in the order of the list.
\<close>

fun withCalculations ::
    "saving \<Rightarrow> real \<Rightarrow> transaction list \<Rightarrow> transactionWithCalculations list" where
  "withCalculations r running [] = []"
| "withCalculations r running (t # ts) =
     (let running' = running + amount t;
          dayOfMonth = getDate (date t);
          expected = dailyBudget r * real_of_int dayOfMonth;
          diff = expected - running'
      in \<lparr>c_transaction = t, runningTotal = running', expectedSpent = expected,
          difference = (if diff \<ge> 0 then ''+'' @ toFixed2 diff else toFixed2 diff)\<rparr>
         # withCalculations r running' ts)"

text \<open>
  The handler looks the saving up, and then queries the transactions with the saving
  included by \<open>select: { monthlyAmount, dailyBudget, month, year }\<close>. When the ORM refuses the
  query, the \<open>catch\<close> of the handler answers with status 500; otherwise the callback runs over
  the rows as fetched and the list is reversed.
\<close>

definition listTransactionsForPeriod ::
    "int \<Rightarrow> int \<Rightarrow> db \<Rightarrow> error + transactionWithCalculations list" where
  "listTransactionsForPeriod userId i s =
     (case find (\<lambda>r. s_id r = i \<and> s_userId r = userId) (savings s) of
        None \<Rightarrow> Inl (NotFound ''Saving not found'')
      | Some r \<Rightarrow>
          if \<not> selectable [''monthlyAmount'', ''dailyBudget'', ''month'', ''year''] then
            Inl (InternalError ''Internal server error'')
          else
            let ts = orderByDateDesc
                       (filter (\<lambda>t. savingId t = i \<and> t_userId t = userId) (transactions s))
            in Inr (rev (withCalculations r 0 ts)))"

record pagination =
  pg_total :: nat
  pg_limit :: nat
  pg_offset :: nat
  pg_hasMore :: bool

text \<open>
  The query parameters \<open>limit\<close> and \<open>offset\<close> are natural numbers or absent. The saving is
  included by \<open>select: { month, year, dailyBudget }\<close>, columns that the table has; the model
  keeps the whole row of the saving.
\<close>

definition listTransactions ::
    "int \<Rightarrow> nat option \<Rightarrow> nat option \<Rightarrow> db
      \<Rightarrow> (transaction \<times> saving option) list \<times> pagination" where
  "listTransactions userId qlimit qoffset s =
     (let lim' = (case qlimit of None \<Rightarrow> 50 | Some n \<Rightarrow> n);
          off' = (case qoffset of None \<Rightarrow> 0 | Some n \<Rightarrow> n);
          own = filter (\<lambda>t. t_userId t = userId) (transactions s);
          page = take lim' (drop off' (orderByDateDesc own))
      in (map (\<lambda>t. (t, savingOf s t)) page,
          \<lparr>pg_total = length own, pg_limit = lim', pg_offset = off',
           pg_hasMore = (off' + lim' < length own)\<rparr>))"

subsection \<open>PUT /transactions/:id and DELETE /transactions/:id\<close>

record transactionPatch =
  p_amount :: "real option"
  p_description :: "string option"
  p_date :: "int option"

text \<open>
  The \<open>data\<close> of the update, built from three conditional spreads: the amount when it is
  truthy, the description when it is not \<open>undefined\<close>, the date when it is truthy.
\<close>

definition patchData :: "transactionPatch \<Rightarrow> transaction \<Rightarrow> transaction" where
  "patchData p t =
     (let t1 = (if truthy (p_amount p) then t\<lparr>amount := the (p_amount p)\<rparr> else t);
          t2 = (if p_description p \<noteq> None then t1\<lparr>description := p_description p\<rparr> else t1)
      in if truthy (p_date p) then t2\<lparr>date := the (p_date p)\<rparr> else t2)"

definition updateTransaction ::
    "int \<Rightarrow> int \<Rightarrow> transactionPatch \<Rightarrow> db \<Rightarrow> (error + transaction \<times> saving option) \<times> db" where
  "updateTransaction userId i p s =
     (case find (\<lambda>t. t_id t = i \<and> t_userId t = userId) (transactions s) of
        None \<Rightarrow> (Inl (NotFound ''Transaction not found''), s)
      | Some existingTransaction \<Rightarrow>
          (Inr (patchData p existingTransaction, savingOf s existingTransaction),
           transactionUpdate i (patchData p) s))"

definition deleteTransaction :: "int \<Rightarrow> int \<Rightarrow> db \<Rightarrow> (error + unit) \<times> db" where
  "deleteTransaction userId i s =
     (case find (\<lambda>t. t_id t = i \<and> t_userId t = userId) (transactions s) of
        None \<Rightarrow> (Inl (NotFound ''Transaction not found''), s)
      | Some existingTransaction \<Rightarrow> (Inr (), transactionDelete i s))"


subsection \<open>The router\<close>

text \<open>
  One request of an authenticated user against the ten routes. The response of the router
  keeps the rows of the two tables that the JSON payload of the handler contains.
\<close>

datatype request =
    UpsertPeriod savingBody
  | ListPeriods
  | GetPeriod int int
  | DeletePeriod int
  | ForceDeletePeriod int
  | CreateTransaction transactionBody
  | ListTransactionsForPeriod int
  | ListTransactions "nat option" "nat option"
  | UpdateTransaction int transactionPatch
  | DeleteTransaction int

datatype response =
    Failure error
  | Payload "saving list" "transaction list"

fun handle :: "int \<Rightarrow> int \<Rightarrow> request \<Rightarrow> db \<Rightarrow> response \<times> db" where
  "handle userId now (UpsertPeriod body) s =
     (case upsertPeriod userId body s of
        (Inl e, s') \<Rightarrow> (Failure e, s')
      | (Inr row, s') \<Rightarrow> (Payload [row] [], s'))"
| "handle userId now ListPeriods s =
     (let rows = listPeriods userId s
      in (Payload (map l_saving rows) (concat (map l_transactions rows)), s))"
| "handle userId now (GetPeriod yr mo) s =
     (case getPeriod userId now yr mo s of
        Inl e \<Rightarrow> (Failure e, s)
      | Inr g \<Rightarrow> (Payload [g_saving g] (g_transactions g), s))"
| "handle userId now (DeletePeriod i) s =
     (case deletePeriod userId i s of
        (Inl e, s') \<Rightarrow> (Failure e, s')
      | (Inr x, s') \<Rightarrow> (Payload [] [], s'))"
| "handle userId now (ForceDeletePeriod i) s =
     (case forceDeletePeriod userId i s of
        (Inl e, s') \<Rightarrow> (Failure e, s')
      | (Inr x, s') \<Rightarrow> (Payload [] [], s'))"
| "handle userId now (CreateTransaction body) s =
     (case createTransaction userId now body s of
        (Inl e, s') \<Rightarrow> (Failure e, s')
      | (Inr (t, r), s') \<Rightarrow> (Payload [r] [t], s'))"
| "handle userId now (ListTransactionsForPeriod i) s =
     (case listTransactionsForPeriod userId i s of
        Inl e \<Rightarrow> (Failure e, s)
      | Inr rows \<Rightarrow> (Payload [] (map c_transaction rows), s))"
| "handle userId now (ListTransactions qlimit qoffset) s =
     (let page = fst (listTransactions userId qlimit qoffset s)
      in (Payload (concat (map (\<lambda>(t, r). case r of None \<Rightarrow> [] | Some x \<Rightarrow> [x]) page))
                  (map fst page), s))"
| "handle userId now (UpdateTransaction i p) s =
     (case updateTransaction userId i p s of
        (Inl e, s') \<Rightarrow> (Failure e, s')
      | (Inr (t, r), s') \<Rightarrow> (Payload (case r of None \<Rightarrow> [] | Some x \<Rightarrow> [x]) [t], s'))"
| "handle userId now (DeleteTransaction i) s =
     (case deleteTransaction userId i s of
        (Inl e, s') \<Rightarrow> (Failure e, s')
      | (Inr x, s') \<Rightarrow> (Payload [] [], s'))"

fun savingRows :: "response \<Rightarrow> saving list" where
  "savingRows (Failure e) = []"
| "savingRows (Payload rs ts) = rs"

fun transactionRows :: "response \<Rightarrow> transaction list" where
  "transactionRows (Failure e) = []"
| "transactionRows (Payload rs ts) = ts"

fun failsNotFound :: "response \<Rightarrow> bool" where
  "failsNotFound (Failure (NotFound m)) = True"
| "failsNotFound r = False"

fun failsValidation :: "response \<Rightarrow> bool" where
  "failsValidation (Failure (ValidationError m)) = True"
| "failsValidation r = False"

subsection \<open>Properties of a database\<close>

text \<open>
  What the tables guarantee by their primary keys, counters and foreign key, together with
  what \<open>createTransaction\<close> establishes: a transaction belongs to the owner of its saving.
\<close>

definition wellFormed :: "db \<Rightarrow> bool" where
  "wellFormed s =
     (distinct (map s_id (savings s)) \<and> distinct (map t_id (transactions s))
      \<and> (\<forall>r \<in> set (savings s). s_id r < nextSavingId s)
      \<and> (\<forall>t \<in> set (transactions s). t_id t < nextTransactionId s)
      \<and> (\<forall>t \<in> set (transactions s).
            \<exists>r \<in> set (savings s). s_id r = savingId t \<and> s_userId r = t_userId t))"

text \<open>The uniqueness key of a period, and the property that no two rows share it.\<close>

definition periodKey :: "saving \<Rightarrow> int \<times> int \<times> int \<times> int option" where
  "periodKey r = (s_userId r, month r, year r, weekNumber r)"

definition uniquePeriods :: "db \<Rightarrow> bool" where
  "uniquePeriods s = distinct (map periodKey (savings s))"

text \<open>The day count of a period as the specification words it.\<close>

definition dayCount :: "string \<Rightarrow> int \<Rightarrow> int \<Rightarrow> int" where
  "dayCount kind mo yr = (if kind = ''weekly'' then 7 else calendarDays mo yr)"

text \<open>
  A write request that names, by id, a saving or a transaction of another user; and the
  checks of \<open>createTransaction\<close> that come before its lookup of the saving.
\<close>

definition foreignSaving :: "int \<Rightarrow> int \<Rightarrow> db \<Rightarrow> bool" where
  "foreignSaving userId i s = list_ex (\<lambda>r. s_id r = i \<and> s_userId r \<noteq> userId) (savings s)"

definition foreignTransaction :: "int \<Rightarrow> int \<Rightarrow> db \<Rightarrow> bool" where
  "foreignTransaction userId i s =
     list_ex (\<lambda>t. t_id t = i \<and> t_userId t \<noteq> userId) (transactions s)"

fun foreignTarget :: "int \<Rightarrow> request \<Rightarrow> db \<Rightarrow> bool" where
  "foreignTarget userId (DeletePeriod i) s = foreignSaving userId i s"
| "foreignTarget userId (ForceDeletePeriod i) s = foreignSaving userId i s"
| "foreignTarget userId (CreateTransaction body) s =
     (case b_savingId body of None \<Rightarrow> False | Some i \<Rightarrow> foreignSaving userId i s)"
| "foreignTarget userId (UpdateTransaction i p) s = foreignTransaction userId i s"
| "foreignTarget userId (DeleteTransaction i) s = foreignTransaction userId i s"
| "foreignTarget userId req s = False"

fun passesChecks :: "request \<Rightarrow> bool" where
  "passesChecks (CreateTransaction body) =
     (truthy (b_amount body) \<and> truthy (b_savingId body) \<and> 0 < the (b_amount body))"
| "passesChecks req = True"

subsection \<open>Example data\<close>

definition emptyDb :: db where
  "emptyDb = \<lparr>savings = [], transactions = [], nextSavingId = 1, nextTransactionId = 1\<rparr>"

definition januarySaving :: saving where
  "januarySaving =
     \<lparr>s_id = 1, s_userId = 1, monthlyIncome = 1000, savingTarget = 845,
      availableAmount = 155, dailyBudget = 5, period = ''monthly'', month = 1, year = 2025,
      weekNumber = None\<rparr>"

definition expense :: "int \<Rightarrow> real \<Rightarrow> int \<Rightarrow> transaction" where
  "expense i a d =
     \<lparr>t_id = i, t_userId = 1, savingId = 1, amount = a, t_type = ''expense'',
      description = Some '''', date = d\<rparr>"

text \<open>
  Three expenses of 10, 20 and 30 on the first of January 2025, at 08:00, 12:00 and 18:00.
\<close>

definition ledgerDb :: db where
  "ledgerDb =
     \<lparr>savings = [januarySaving],
      transactions = [expense 1 10 1735718400000, expense 2 20 1735732800000,
                      expense 3 30 1735754400000],
      nextSavingId = 2, nextTransactionId = 4\<rparr>"

definition monthlyBody :: savingBody where
  "monthlyBody =
     \<lparr>b_monthlyIncome = Some 3200, b_savingTarget = Some 100, b_period = None,
      b_month = Some 1, b_year = Some 2025, b_weekNumber = None\<rparr>"

text \<open>The database after \<open>monthlyBody\<close>, and after the same body with another income.\<close>

definition firstRow :: saving where
  "firstRow =
     \<lparr>s_id = 1, s_userId = 1, monthlyIncome = 3200, savingTarget = 100,
      availableAmount = 3100, dailyBudget = 100, period = ''monthly'', month = 1, year = 2025,
      weekNumber = None\<rparr>"

definition afterFirst :: db where
  "afterFirst =
     \<lparr>savings = [firstRow], transactions = [], nextSavingId = 2, nextTransactionId = 1\<rparr>"

definition secondRow :: saving where
  "secondRow = firstRow\<lparr>monthlyIncome := 6300, availableAmount := 6200, dailyBudget := 200\<rparr>"

definition afterSecond :: db where
  "afterSecond =
     \<lparr>savings = [secondRow], transactions = [], nextSavingId = 2, nextTransactionId = 1\<rparr>"

text \<open>The rows of a user in both tables.\<close>

definition rowsOf :: "int \<Rightarrow> db \<Rightarrow> saving list \<times> transaction list" where
  "rowsOf userId s =
     (filter (\<lambda>r. s_userId r = userId) (savings s),
      filter (\<lambda>t. t_userId t = userId) (transactions s))"


section \<open>Properties\<close>

subsection \<open>Calendar arithmetic\<close>

text \<open>
  The first day of a year determines the year of every day in it, so the estimate of
  \<open>YearFromDay\<close> is corrected to the right year; from there the day of the month that
  \<open>new Date(year, month, 0)\<close> denotes is the length of that month in the calendar.
\<close>

lemma div_step:
  assumes "1 < k" shows "(y::int) div k = (y - 1) div k + (if y mod k = 0 then 1 else 0)"
proof -
  define x where "x = y - 1"
  have y: "y = x + 1" by (simp add: x_def)
  have b: "0 \<le> x mod k" "x mod k < k" using assms by simp_all
  have "(x + 1) div k = x div k + (x mod k + 1) div k"
    using assms by (simp add: div_add1_eq[of x 1 k])
  moreover have "(x mod k + 1) div k = (if x mod k + 1 = k then 1 else 0)"
    using b by (auto simp: div_pos_pos_trivial)
  moreover have "(x mod k + 1 = k) = ((x + 1) mod k = 0)"
  proof
    assume "x mod k + 1 = k"
    then have "(x mod k + 1) mod k = 0" by simp
    then show "(x + 1) mod k = 0" by (simp add: mod_simps)
  next
    assume a: "(x + 1) mod k = 0"
    have "(x mod k + 1) mod k = 0" using a by (simp add: mod_simps)
    then show "x mod k + 1 = k" using b assms
      by (metis add.commute add_le_cancel_left mod_pos_pos_trivial not_less zless_add1_eq
          zle_add1_eq_le less_le)
  qed
  ultimately show ?thesis unfolding y by simp
qed

lemma div_shift: "k \<noteq> 0 \<Longrightarrow> ((y::int) - (k * c + 1)) div k = (y - 1) div k - c"
proof -
  assume k: "k \<noteq> 0"
  have "y - (k * c + 1) = (y - 1) + (- c) * k" by (simp add: algebra_simps)
  then show ?thesis using div_mult_self1[OF k, of "y - 1" "- c"] by (simp add: algebra_simps)
qed

lemma DayFromYear_alt:
  "DayFromYear y = 365 * (y - 1970) + (y - 1) div 4 - (y - 1) div 100 + (y - 1) div 400 - 477"
proof -
  have "(y - 1969) div 4 = (y - 1) div 4 - 492" using div_shift[of y 4 492] by simp
  moreover have "(y - 1901) div 100 = (y - 1) div 100 - 19" using div_shift[of y 100 19] by simp
  moreover have "(y - 1601) div 400 = (y - 1) div 400 - 4" using div_shift[of y 400 4] by simp
  ultimately show ?thesis by (simp add: DayFromYear_def)
qed

lemma leap_count:
  "(p100 \<longrightarrow> p4) \<Longrightarrow> (p400 \<longrightarrow> p100) \<Longrightarrow>
   (if \<not> p4 then 365 else if \<not> p100 then 366 else if \<not> p400 then 365 else (366::int)) =
   365 + (if p4 then 1 else 0) - (if p100 then 1 else 0) + (if p400 then 1 else 0)"
  by auto

lemma step_linear:
  "A' = A + i \<Longrightarrow> B' = B + j \<Longrightarrow> C' = C + k \<Longrightarrow>
   (365 * (y - 1969) + A' - B' + C' - 477 :: int) =
   (365 * (y - 1970) + A - B + C - 477) + (365 + i - j + k)"
  by simp

lemma DayFromYear_step: "DayFromYear (y + 1) = DayFromYear y + DaysInYear y"
proof -
  have d4: "y div 4 = (y - 1) div 4 + (if y mod 4 = 0 then 1 else 0)" by (rule div_step) simp
  have d100: "y div 100 = (y - 1) div 100 + (if y mod 100 = 0 then 1 else 0)" by (rule div_step) simp
  have d400: "y div 400 = (y - 1) div 400 + (if y mod 400 = 0 then 1 else 0)" by (rule div_step) simp
  have m1: "y mod 100 = 0 \<longrightarrow> y mod 4 = 0" by presburger
  have m2: "y mod 400 = 0 \<longrightarrow> y mod 100 = 0" by presburger
  have alt: "DayFromYear (y + 1) = 365 * (y - 1969) + y div 4 - y div 100 + y div 400 - 477"
    using DayFromYear_alt[of "y + 1"] by simp
  have diy: "DaysInYear y = 365 + (if y mod 4 = 0 then 1 else 0) - (if y mod 100 = 0 then 1 else 0)
               + (if y mod 400 = 0 then 1 else 0)"
    unfolding DaysInYear_def by (simp only: not_not leap_count[OF m1 m2])
  show ?thesis
    unfolding alt diy DayFromYear_alt[of y] by (rule step_linear[OF d4 d100 d400])
qed

lemma year_length_cases:
  "(if a then 365 else if b then 366 else if c then 365 else (366::int)) = 365 \<or>
   (if a then 365 else if b then 366 else if c then 365 else (366::int)) = 366"
  by auto

lemma DaysInYear_cases: "DaysInYear y = 365 \<or> DaysInYear y = 366"
  unfolding DaysInYear_def by (rule year_length_cases)

lemma DayFromYear_add: "DayFromYear y + 365 * int n \<le> DayFromYear (y + int n)"
proof (induction n)
  case 0
  show ?case by simp
next
  case (Suc n)
  have "y + int (Suc n) = y + int n + 1" by simp
  then have "DayFromYear (y + int (Suc n)) = DayFromYear (y + int n) + DaysInYear (y + int n)"
    using DayFromYear_step[of "y + int n"] by (simp only:)
  moreover have "365 \<le> DaysInYear (y + int n)"
    using DaysInYear_cases[of "y + int n"] by linarith
  ultimately show ?case using Suc.IH by simp
qed

lemma DayFromYear_less: 
  assumes "a < b" shows "DayFromYear a < DayFromYear b"
proof -
  obtain n where n: "b = a + int n" "0 < n"
    using assms by (metis zless_iff_Suc_zadd zero_less_Suc)
  have "DayFromYear a + 365 * int n \<le> DayFromYear b"
    using DayFromYear_add[of a n] n by simp
  then show ?thesis using n by linarith
qed

lemma year_estimate:
  fixes y d D Q q4 q100 q400 :: int
  assumes "4 * q4 \<le> y - 1" "y - 1 < 4 * q4 + 4"
    and "100 * q100 \<le> y - 1" "y - 1 < 100 * q100 + 100"
    and "400 * q400 \<le> y - 1" "y - 1 < 400 * q400 + 400"
    and "D = 365 * (y - 1970) + q4 - q100 + q400 - 477"
    and "D \<le> d" "d < D + 367"
    and "146097 * Q \<le> 400 * d" "400 * d < 146097 * Q + 146097"
  shows "y - 1 \<le> 1970 + Q \<and> 1970 + Q \<le> y + 1"
proof
  have lo: "146097 * (y - 1970) - 700 \<le> 400 * D"
    using assms(2,3,6,7) by simp
  have hi: "400 * D \<le> 146097 * (y - 1970) + 593"
    using assms(1,4,5,7) by simp
  have "146097 * (y - 1970) - 700 < 146097 * Q + 146097"
    using lo assms(8,11) by simp
  then show "y - 1 \<le> 1970 + Q" by simp
  have "146097 * Q < 146097 * (y - 1970) + 593 + 146800"
    using hi assms(9,10) by simp
  then show "1970 + Q \<le> y + 1" by simp
qed

lemma div_bounds:
  assumes "0 < k" shows "k * ((x::int) div k) \<le> x \<and> x < k * (x div k) + k"
proof -
  have "k * (x div k) + x mod k = x" by simp
  moreover have "0 \<le> x mod k" "x mod k < k" using assms by simp_all
  ultimately show ?thesis by linarith
qed

lemma YearFromDay_unique:
  assumes lo: "DayFromYear y \<le> d" and hi: "d < DayFromYear (y + 1)"
  shows "YearFromDay d = y"
proof -
  define e where "e = 1970 + (400 * d) div 146097"
  have hi': "d < DayFromYear y + 367"
    using hi DayFromYear_step[of y] DaysInYear_cases[of y] by linarith
  have "y - 1 \<le> 1970 + (400 * d) div 146097 \<and> 1970 + (400 * d) div 146097 \<le> y + 1"
    using div_bounds[of 4 "y - 1"] div_bounds[of 100 "y - 1"] div_bounds[of 400 "y - 1"]
      div_bounds[of 146097 "400 * d"] lo hi'
    by (intro year_estimate[where D = "DayFromYear y" and d = d and ?q4.0 = "(y - 1) div 4"
          and ?q100.0 = "(y - 1) div 100" and ?q400.0 = "(y - 1) div 400"])
       (simp_all add: DayFromYear_alt)
  then have eb: "y - 1 \<le> e" "e \<le> y + 1" by (simp_all add: e_def)
  have m: "\<And>a b. DayFromYear a \<le> d \<Longrightarrow> d < DayFromYear b \<Longrightarrow> a < b"
    using DayFromYear_less
    by (metis less_le_not_le not_less order.strict_trans2 linorder_neqE_linordered_idom)
  show ?thesis
  proof (cases "d < DayFromYear e")
    case True
    then have "y < e" using m[OF lo] by simp
    then have "e - 1 = y" using eb by linarith
    then show ?thesis using True by (simp add: YearFromDay_def Let_def e_def[symmetric])
  next
    case False
    show ?thesis
    proof (cases "DayFromYear (e + 1) \<le> d")
      case True
      then have "e + 1 < y + 1" using m[OF _ hi] by simp
      then have "e + 1 = y" using eb by linarith
      then show ?thesis using True False by (simp add: YearFromDay_def Let_def e_def[symmetric])
    next
      case nh: False
      have "e < y + 1" using m[OF _ hi, of e] False by simp
      moreover have "y < e + 1" using m[OF lo, of "e + 1"] nh by simp
      ultimately have "e = y" by linarith
      then show ?thesis using nh False by (simp add: YearFromDay_def Let_def e_def[symmetric])
    qed
  qed
qed

lemma leap_bool: "(if (if a then 365 else if b then 366 else if c then 365 else (366::int)) = 366 then 1 else (0::int))
   = (if \<not> a \<and> (b \<or> \<not> c) then 1 else 0)"
  by auto

lemma InLeapYear_iff: "InLeapYear y = (if isLeapYear y then 1 else 0)"
  unfolding InLeapYear_def DaysInYear_def isLeapYear_def leap_bool by (simp only: not_not)

lemma InLeapYear_cases: "InLeapYear y = 0 \<or> InLeapYear y = 1"
  unfolding InLeapYear_def by (rule year_length_cases[of "DaysInYear y = 366" True True, simplified] | simp)

lemma DaysInYear_leap: "DaysInYear y = 365 + InLeapYear y"
  using DaysInYear_cases[of y] unfolding InLeapYear_def by auto

lemma month_table:
  assumes "l = 0 \<or> l = 1" and "mo = 1 \<or> mo = 2 \<or> mo = 3 \<or> mo = 4 \<or> mo = 5 \<or> mo = 6 \<or> mo = 7 \<or> mo = 8 \<or> mo = 9
     \<or> mo = 10 \<or> mo = (11::int)"
  shows "DateFromDayWithinYear l (monthStart l mo - 1) =
     (if mo = 2 then 28 + l else if mo = 4 \<or> mo = 6 \<or> mo = 9 \<or> mo = 11 then 30 else 31)"
  using assms
  by (elim disjE; simp add: DateFromDayWithinYear_def MonthFromDayWithinYear_def monthStart_def)

lemma december_table:
  assumes "l = 0 \<or> l = 1"
  shows "DateFromDayWithinYear l (364 + l) = 31"
  using assms
  by (elim disjE; simp add: DateFromDayWithinYear_def MonthFromDayWithinYear_def)

lemma Day_of_day: "Day (d * msPerDay) = d"
  by (simp add: Day_def msPerDay_def)

lemma DateFromTime_in_year:
  assumes "0 \<le> k" "k < DaysInYear y"
  shows "DateFromTime ((DayFromYear y + k) * msPerDay) = DateFromDayWithinYear (InLeapYear y) k"
proof -
  have "YearFromDay (DayFromYear y + k) = y"
    using assms DayFromYear_step[of y] by (intro YearFromDay_unique) simp_all
  then show ?thesis
    unfolding DateFromTime_def Day_of_day Let_def by simp
qed

lemma last_day_of_month:
  assumes "1 \<le> mo" "mo \<le> 12"
  shows "DateFromTime (MakeDay yr mo 0 * msPerDay) =
     (if mo = 2 then 28 + InLeapYear yr
      else if mo = 4 \<or> mo = 6 \<or> mo = 9 \<or> mo = 11 then 30 else 31)"
proof (cases "mo = 12")
  case True
  have "MakeDay yr mo 0 = DayFromYear (yr + 1) - 1"
    using True by (simp add: MakeDay_def monthStart_def)
  also have "\<dots> = DayFromYear yr + (364 + InLeapYear yr)"
    using DayFromYear_step[of yr] DaysInYear_leap[of yr] by simp
  finally have "DateFromTime (MakeDay yr mo 0 * msPerDay) =
      DateFromDayWithinYear (InLeapYear yr) (364 + InLeapYear yr)"
    using InLeapYear_cases[of yr] DaysInYear_leap[of yr]
    by (simp only:) (intro DateFromTime_in_year; linarith)
  then show ?thesis
    using december_table[OF InLeapYear_cases[of yr]] True by simp
next
  case False
  then have mo: "mo = 1 \<or> mo = 2 \<or> mo = 3 \<or> mo = 4 \<or> mo = 5 \<or> mo = 6 \<or> mo = 7 \<or> mo = 8 \<or> mo = 9
     \<or> mo = 10 \<or> mo = 11" using assms by arith
  then have dm: "mo div 12 = 0" "mo mod 12 = mo" by auto
  have mk: "MakeDay yr mo 0 = DayFromYear yr + (monthStart (InLeapYear yr) mo - 1)"
    by (simp add: MakeDay_def dm)
  have rng: "0 \<le> monthStart (InLeapYear yr) mo - 1" "monthStart (InLeapYear yr) mo - 1 < DaysInYear yr"
    using mo InLeapYear_cases[of yr] unfolding DaysInYear_leap monthStart_def by auto
  show ?thesis
    unfolding mk DateFromTime_in_year[OF rng]
    by (rule month_table[OF InLeapYear_cases mo])
qed

lemma isLeapYear_two_digit:
  assumes "1 \<le> y" "y \<le> 99"
  shows "isLeapYear (1900 + y) = isLeapYear y"
proof -
  have a: "(1900 + y) mod 4 = y mod 4" by presburger
  have c: "y mod 100 = y" using assms by simp
  have "1900 + y = y + 100 * 19" by simp
  then have "(1900 + y) mod 100 = (y + 100 * 19) mod 100" by (simp only:)
  also have "\<dots> = y mod 100" by (rule mod_mult_self2)
  finally have b: "(1900 + y) mod 100 = y" using c by simp
  show ?thesis unfolding isLeapYear_def a b c using assms by simp
qed

lemma calendarDays_leap:
  "calendarDays mo yr =
     (if mo = 2 then 28 + InLeapYear yr
      else if mo = 4 \<or> mo = 6 \<or> mo = 9 \<or> mo = 11 then 30 else 31)"
  by (simp add: calendarDays_def InLeapYear_iff)

lemma getDate_newDate:
  assumes "1 \<le> mo" "mo \<le> 12" "yr \<noteq> 0"
  shows "getDate (newDate yr mo 0) = calendarDays mo yr"
proof -
  define y where "y = (if 0 \<le> yr \<and> yr \<le> 99 then 1900 + yr else yr)"
  have leap: "InLeapYear y = InLeapYear yr"
  proof (cases "0 \<le> yr \<and> yr \<le> 99")
    case True
    then have "isLeapYear (1900 + yr) = isLeapYear yr"
      using assms(3) by (intro isLeapYear_two_digit) simp_all
    then show ?thesis using True by (simp add: y_def InLeapYear_iff)
  next
    case False
    then have "y = yr" unfolding y_def by (simp only: if_False)
    then show ?thesis by simp
  qed
  have "getDate (newDate yr mo 0) = DateFromTime (MakeDay y mo 0 * msPerDay)"
    by (simp add: getDate_def newDate_def y_def)
  then show ?thesis
    unfolding last_day_of_month[OF assms(1,2)] calendarDays_leap leap by simp
qed

subsection \<open>Checks of POST /savings\<close>

lemma truthy_iff: "truthy v \<longleftrightarrow> (\<exists>x. v = Some x \<and> x \<noteq> 0)"
  by (cases v) (simp_all add: truthy_def)

lemma checkBody_Inr_iff:
  "checkBody body = Inr d \<longleftrightarrow>
     (\<exists>income target mo yr.
        b_monthlyIncome body = Some income \<and> b_savingTarget body = Some target
        \<and> 0 < income \<and> 0 < target \<and> target < income
        \<and> b_month body = Some mo \<and> 1 \<le> mo \<and> mo \<le> 12
        \<and> b_year body = Some yr \<and> yr \<noteq> 0
        \<and> (periodOf body = ''weekly'' \<longrightarrow> truthy (b_weekNumber body))
        \<and> d = \<lparr>finalMonthlyIncome = income, finalSavingTarget = target,
                 finalAvailableAmount = income - target,
                 finalDailyBudget = (income - target) /
                    real_of_int (if periodOf body = ''weekly'' then 7
                                 else getDate (newDate yr mo 0)),
                 d_period = periodOf body, d_month = mo, d_year = yr,
                 d_weekNumber = b_weekNumber body\<rparr>)"
  unfolding checkBody_def Let_def truthy_iff
  by (cases "b_monthlyIncome body"; cases "b_savingTarget body"; cases "b_month body";
      cases "b_year body") (auto simp: not_le not_less)

lemma checkBody_Inl: "checkBody body = Inl e \<Longrightarrow> \<exists>m. e = ValidationError m"
  unfolding checkBody_def Let_def
  by (auto split: if_splits)

lemma upsertPeriod_fails_iff:
  "isValidationError (fst (upsertPeriod userId body s)) \<longleftrightarrow> (\<forall>d. checkBody body \<noteq> Inr d)"
proof (cases "checkBody body")
  case (Inl e)
  then obtain m where "e = ValidationError m" using checkBody_Inl by blast
  then show ?thesis using Inl by (simp add: upsertPeriod_def isValidationError_def)
next
  case (Inr d)
  then show ?thesis
    by (simp add: upsertPeriod_def isValidationError_def split: prod.splits)
qed

lemma upsertPeriod_failure_keeps_db:
  "fst (upsertPeriod userId body s) = Inl e \<Longrightarrow> snd (upsertPeriod userId body s) = s"
  by (cases "checkBody body") (simp_all add: upsertPeriod_def split: prod.splits)


subsection \<open>The write of POST /savings\<close>

lemma find_SomeD: "find P xs = Some x \<Longrightarrow> P x \<and> x \<in> set xs"
  by (induction xs) (auto split: if_splits)

lemma writePeriod_row:
  assumes "writePeriod userId d s = (row, s')"
  shows "row \<in> set (savings s') \<and> s_userId row = userId
     \<and> month row = d_month d \<and> year row = d_year d
     \<and> weekNumber row = (if d_period d = ''weekly'' then Some (the (d_weekNumber d)) else None)
     \<and> monthlyIncome row = finalMonthlyIncome d \<and> savingTarget row = finalSavingTarget d
     \<and> availableAmount row = finalAvailableAmount d \<and> dailyBudget row = finalDailyBudget d
     \<and> period row = d_period d"
proof (cases "d_period d = ''weekly''")
  case True
  show ?thesis
  proof (cases "find (\<lambda>r. (s_userId r, month r, year r, weekNumber r)
                  = (userId, d_month d, d_year d, Some (the (d_weekNumber d)))) (savings s)")
    case None
    then show ?thesis using assms(1) True
      by (auto simp: writePeriod_def savingUpsert_def savingCreate_def createData_def Let_def)
  next
    case (Some ex)
    from find_SomeD[OF Some] show ?thesis using assms(1) True Some
      by (auto simp: writePeriod_def savingUpsert_def updateData_def Let_def)
  qed
next
  case False
  show ?thesis
  proof (cases "find (\<lambda>r. s_userId r = userId \<and> month r = d_month d \<and> year r = d_year d
                         \<and> weekNumber r = None) (savings s)")
    case None
    then show ?thesis using assms(1) False
      by (auto simp: writePeriod_def savingCreate_def createData_def Let_def)
  next
    case (Some ex)
    from find_SomeD[OF Some] show ?thesis using assms(1) False Some
      by (auto simp: writePeriod_def savingUpdate_def updateData_def Let_def)
  qed
qed

lemma upsertPeriod_Inr:
  assumes "upsertPeriod userId body s = (Inr row, s')"
  obtains d where "checkBody body = Inr d" "writePeriod userId d s = (row, s')"
  using assms by (cases "checkBody body") (auto simp: upsertPeriod_def split: prod.splits)

lemma upsert_monthlyBody:
  "upsertPeriod 1 monthlyBody emptyDb = (Inr firstRow, afterFirst)"
  by (simp add: upsertPeriod_def checkBody_def periodOf_def monthlyBody_def emptyDb_def
      truthy_def getDate_newDate calendarDays_def writePeriod_def savingCreate_def
      createData_def Let_def firstRow_def afterFirst_def)

lemma upsert_monthlyBody_again:
  "upsertPeriod 1 (monthlyBody\<lparr>b_monthlyIncome := Some 6300\<rparr>) afterFirst
     = (Inr secondRow, afterSecond)"
  by (simp add: upsertPeriod_def checkBody_def periodOf_def monthlyBody_def
      truthy_def getDate_newDate calendarDays_def writePeriod_def savingUpdate_def
      updateData_def Let_def firstRow_def afterFirst_def secondRow_def afterSecond_def)


lemma periodKey_updateData: "periodKey (updateData d r) = periodKey r"
  by (simp add: periodKey_def updateData_def)

lemma s_id_updateData: "s_id (updateData d r) = s_id r"
  by (simp add: updateData_def)

lemma find_None_key: "find P xs = None \<Longrightarrow> \<forall>x \<in> set xs. \<not> P x"
  by (simp add: find_None_iff)

lemma find_distinct_key:
  assumes "distinct (map f xs)" "x \<in> set xs"
  shows "find (\<lambda>y. f y = f x) xs = Some x"
  using assms by (induction xs) (auto simp: image_iff)

lemma filter_distinct_key:
  assumes "distinct (map f xs)" "x \<in> set xs"
  shows "filter (\<lambda>y. f y = f x) xs = [x]"
  using assms
proof (induction xs)
  case Nil
  then show ?case by simp
next
  case (Cons a xs)
  show ?case
  proof (cases "a = x")
    case True
    then have "\<forall>y \<in> set xs. f y \<noteq> f x" using Cons.prems by (auto simp: image_iff)
    then have "filter (\<lambda>y. f y = f x) xs = []" by (simp add: filter_empty_conv)
    then show ?thesis using True by simp
  next
    case False
    then have "x \<in> set xs" using Cons.prems by simp
    moreover have "f a \<noteq> f x" using Cons.prems \<open>x \<in> set xs\<close> by (auto simp: image_iff)
    ultimately show ?thesis using Cons by simp
  qed
qed

lemma map_key_update:
  assumes "\<And>r. f (g r) = f r"
  shows "map f (map (\<lambda>r. if c r then g r else r) xs) = map f xs"
  using assms by (induction xs) auto

lemma writePeriod_unique:
  assumes "uniquePeriods s" "writePeriod userId d s = (row, s')"
  shows "uniquePeriods s'"
proof (cases "d_period d = ''weekly''")
  case True
  let ?P = "\<lambda>r. (s_userId r, month r, year r, weekNumber r)
                  = (userId, d_month d, d_year d, Some (the (d_weekNumber d)))"
  show ?thesis
  proof (cases "find ?P (savings s)")
    case None
    then have "\<forall>r \<in> set (savings s). \<not> ?P r" by (rule find_None_key)
    then have "(userId, d_month d, d_year d, Some (the (d_weekNumber d)))
        \<notin> periodKey ` set (savings s)" by (auto simp: periodKey_def)
    then show ?thesis using assms True None
      by (auto simp: uniquePeriods_def writePeriod_def savingUpsert_def savingCreate_def
          createData_def Let_def periodKey_def)
  next
    case (Some ex)
    have "savings s' = map (\<lambda>r. if ?P r then updateData d r else r) (savings s)"
      using assms(2) True Some by (auto simp: writePeriod_def savingUpsert_def Let_def)
    then have "map periodKey (savings s') = map periodKey (savings s)"
      by (simp only: map_key_update[where f = periodKey, OF periodKey_updateData])
    then show ?thesis using assms(1) by (simp add: uniquePeriods_def)
  qed
next
  case False
  let ?P = "\<lambda>r. s_userId r = userId \<and> month r = d_month d \<and> year r = d_year d
                         \<and> weekNumber r = None"
  show ?thesis
  proof (cases "find ?P (savings s)")
    case None
    then have "\<forall>r \<in> set (savings s). \<not> ?P r" by (rule find_None_key)
    then have "(userId, d_month d, d_year d, None) \<notin> periodKey ` set (savings s)"
      by (auto simp: periodKey_def)
    then show ?thesis using assms False None
      by (auto simp: uniquePeriods_def writePeriod_def savingCreate_def
          createData_def Let_def periodKey_def)
  next
    case (Some ex)
    have "savings s' = map (\<lambda>r. if s_id r = s_id ex then updateData d r else r) (savings s)"
      using assms(2) False Some by (auto simp: writePeriod_def savingUpdate_def Let_def)
    then have "map periodKey (savings s') = map periodKey (savings s)"
      by (simp only: map_key_update[where f = periodKey, OF periodKey_updateData])
    then show ?thesis using assms(1) by (simp add: uniquePeriods_def)
  qed
qed

lemma writePeriod_existing:
  assumes "uniquePeriods s" "r \<in> set (savings s)"
    and "periodKey r = (userId, d_month d, d_year d,
           if d_period d = ''weekly'' then Some (the (d_weekNumber d)) else None)"
  shows "fst (writePeriod userId d s) = updateData d r
     \<and> length (savings (snd (writePeriod userId d s))) = length (savings s)"
proof (cases "d_period d = ''weekly''")
  case True
  have "(\<lambda>x. (s_userId x, month x, year x, weekNumber x)
                  = (userId, d_month d, d_year d, Some (the (d_weekNumber d))))
      = (\<lambda>x. periodKey x = periodKey r)"
    using assms(3) True by (simp add: periodKey_def)
  moreover have "find (\<lambda>x. periodKey x = periodKey r) (savings s) = Some r"
    using assms(1,2) unfolding uniquePeriods_def by (rule find_distinct_key)
  ultimately show ?thesis using True
    by (simp add: writePeriod_def savingUpsert_def Let_def)
next
  case False
  have "(\<lambda>x. s_userId x = userId \<and> month x = d_month d \<and> year x = d_year d
                         \<and> weekNumber x = None)
      = (\<lambda>x. periodKey x = periodKey r)"
    using assms(3) False by (auto simp: periodKey_def)
  moreover have "find (\<lambda>x. periodKey x = periodKey r) (savings s) = Some r"
    using assms(1,2) unfolding uniquePeriods_def by (rule find_distinct_key)
  ultimately show ?thesis using False
    by (simp add: writePeriod_def savingUpdate_def Let_def)
qed

lemma updateData_fixed:
  assumes "monthlyIncome r = finalMonthlyIncome d" "savingTarget r = finalSavingTarget d"
    "availableAmount r = finalAvailableAmount d" "dailyBudget r = finalDailyBudget d"
    "period r = d_period d"
  shows "updateData d r = r"
  using assms by (simp add: updateData_def)

subsection \<open>Well-formed databases\<close>

lemma find_by_id:
  assumes "distinct (map f xs)" "x \<in> set xs" "Q x"
  shows "find (\<lambda>y. f y = f x \<and> Q y) xs = Some x"
  using assms by (induction xs) (auto simp: image_iff)

lemma find_by_id_None:
  assumes "distinct (map f xs)" "x \<in> set xs" "\<not> Q x"
  shows "find (\<lambda>y. f y = f x \<and> Q y) xs = None"
proof -
  have "\<And>y. y \<in> set xs \<Longrightarrow> f y = f x \<Longrightarrow> y = x"
    using assms(1,2) by (metis distinct_map inj_onD)
  then show ?thesis using assms(3) by (auto simp: find_None_iff)
qed

lemma filter_other_ids:
  assumes "distinct (map f xs)" "x \<in> set xs"
  shows "filter (\<lambda>y. f y \<noteq> f x) xs = remove1 x xs"
  using assms
proof (induction xs)
  case Nil
  then show ?case by simp
next
  case (Cons a xs)
  show ?case
  proof (cases "a = x")
    case True
    then have "\<forall>y \<in> set xs. f y \<noteq> f x" using Cons.prems by (auto simp: image_iff)
    then have "filter (\<lambda>y. f y \<noteq> f x) xs = xs" by (simp add: filter_id_conv)
    then show ?thesis using True by simp
  next
    case False
    then have "x \<in> set xs" using Cons.prems by simp
    moreover have "f a \<noteq> f x" using Cons.prems \<open>x \<in> set xs\<close> by (auto simp: image_iff)
    ultimately show ?thesis using Cons False by simp
  qed
qed

lemma filter_none_other:
  "filter P xs = [] \<Longrightarrow> filter (\<lambda>x. \<not> P x) xs = xs"
  by (induction xs) (auto split: if_splits)

lemma wellFormed_owner:
  assumes "wellFormed s" "t \<in> set (transactions s)" "r \<in> set (savings s)"
    "savingId t = s_id r"
  shows "t_userId t = s_userId r"
proof -
  obtain r' where r': "r' \<in> set (savings s)" "s_id r' = savingId t" "s_userId r' = t_userId t"
    using assms(1,2) unfolding wellFormed_def by blast
  have "distinct (map s_id (savings s))" using assms(1) by (simp add: wellFormed_def)
  then have "r' = r" using r'(1,2) assms(3,4) by (metis distinct_map inj_onD)
  then show ?thesis using r'(3) by simp
qed

lemma wellFormed_emptyDb: "wellFormed emptyDb"
  by (simp add: wellFormed_def emptyDb_def)

lemma wellFormed_savingCreate:
  assumes "wellFormed s" "savingCreate r s = (row, s')"
  shows "wellFormed s'"
  using assms unfolding wellFormed_def savingCreate_def Let_def
  by (auto simp: image_iff; force)

lemma wellFormed_savings_map:
  assumes "wellFormed s" "\<And>r. s_id (g r) = s_id r" "\<And>r. s_userId (g r) = s_userId r"
  shows "wellFormed (s\<lparr>savings := map (\<lambda>r. if c r then g r else r) (savings s)\<rparr>)"
proof -
  let ?h = "\<lambda>r. if c r then g r else r"
  have ids: "map s_id (map ?h (savings s)) = map s_id (savings s)"
    using assms(2) by (simp add: map_key_update)
  have own: "\<And>r. r \<in> set (savings s) \<Longrightarrow> ?h r \<in> set (map ?h (savings s))
      \<and> s_id (?h r) = s_id r \<and> s_userId (?h r) = s_userId r"
    using assms(2,3) by simp
  have fk: "\<forall>t \<in> set (transactions s).
      \<exists>r \<in> set (map ?h (savings s)). s_id r = savingId t \<and> s_userId r = t_userId t"
  proof
    fix t assume "t \<in> set (transactions s)"
    then obtain r where "r \<in> set (savings s)" "s_id r = savingId t" "s_userId r = t_userId t"
      using assms(1) unfolding wellFormed_def by blast
    then show "\<exists>r \<in> set (map ?h (savings s)). s_id r = savingId t \<and> s_userId r = t_userId t"
      using own[of r] by (intro bexI[of _ "?h r"]) simp_all
  qed
  have lt: "\<forall>r \<in> set (map ?h (savings s)). s_id r < nextSavingId s"
    using assms(1,2) unfolding wellFormed_def by auto
  show ?thesis
    using assms(1) ids fk lt unfolding wellFormed_def
    by (simp del: map_map set_map)
qed

lemma wellFormed_transactions_filter:
  assumes "wellFormed s"
  shows "wellFormed (s\<lparr>transactions := filter P (transactions s)\<rparr>)"
  using assms unfolding wellFormed_def by (auto simp: distinct_map_filter)

lemma wellFormed_savingDelete:
  assumes "wellFormed s"
  shows "wellFormed (savingDelete i s)"
  using assms unfolding wellFormed_def savingDelete_def
  by (auto simp: distinct_map_filter; metis)

lemma wellFormed_transactionCreate:
  assumes "wellFormed s" "r \<in> set (savings s)" "savingId t = s_id r" "t_userId t = s_userId r"
    and "transactionCreate t s = (row, s')"
  shows "wellFormed s'"
  using assms unfolding wellFormed_def transactionCreate_def Let_def
  by (auto simp: image_iff; force)

lemma patchData_keeps:
  "t_id (patchData p t) = t_id t" "t_userId (patchData p t) = t_userId t"
  "savingId (patchData p t) = savingId t" "t_type (patchData p t) = t_type t"
  by (simp_all add: patchData_def Let_def)

lemma wellFormed_transactionUpdate:
  assumes "wellFormed s"
  shows "wellFormed (transactionUpdate i (patchData p) s)"
proof -
  let ?h = "\<lambda>t. if t_id t = i then patchData p t else t"
  have ids: "map t_id (map ?h (transactions s)) = map t_id (transactions s)"
    by (simp add: map_key_update patchData_keeps)
  have keep: "\<And>t. t_id (?h t) = t_id t \<and> savingId (?h t) = savingId t
      \<and> t_userId (?h t) = t_userId t"
    by (simp add: patchData_keeps)
  show ?thesis
    using assms ids keep unfolding wellFormed_def transactionUpdate_def
    by (simp del: map_map set_map) (auto simp: patchData_keeps)
qed

lemma wellFormed_writePeriod:
  assumes "wellFormed s" "writePeriod userId d s = (row, s')"
  shows "wellFormed s'"
proof (cases "d_period d = ''weekly''")
  case True
  let ?P = "\<lambda>r. (s_userId r, month r, year r, weekNumber r)
                  = (userId, d_month d, d_year d, Some (the (d_weekNumber d)))"
  show ?thesis
  proof (cases "find ?P (savings s)")
    case None
    then have "savingCreate (createData userId d (Some (the (d_weekNumber d)))) s = (row, s')"
      using assms(2) True by (simp add: writePeriod_def savingUpsert_def)
    then show ?thesis using assms(1) by (rule wellFormed_savingCreate[rotated])
  next
    case (Some ex)
    then have "s' = s\<lparr>savings := map (\<lambda>r. if ?P r then updateData d r else r) (savings s)\<rparr>"
      using assms(2) True by (auto simp: writePeriod_def savingUpsert_def)
    then show ?thesis using assms(1)
      by (simp only:) (rule wellFormed_savings_map; simp add: updateData_def)
  qed
next
  case False
  let ?P = "\<lambda>r. s_userId r = userId \<and> month r = d_month d \<and> year r = d_year d
                         \<and> weekNumber r = None"
  show ?thesis
  proof (cases "find ?P (savings s)")
    case None
    then have "savingCreate (createData userId d None) s = (row, s')"
      using assms(2) False by (simp add: writePeriod_def)
    then show ?thesis using assms(1) by (rule wellFormed_savingCreate[rotated])
  next
    case (Some ex)
    then have "s' = s\<lparr>savings := map (\<lambda>r. if s_id r = s_id ex then updateData d r else r)
        (savings s)\<rparr>"
      using assms(2) False by (auto simp: writePeriod_def savingUpdate_def)
    then show ?thesis using assms(1)
      by (simp only:) (rule wellFormed_savings_map; simp add: updateData_def)
  qed
qed

lemma wellFormed_upsertPeriod:
  assumes "wellFormed s" "upsertPeriod userId body s = (res, s')"
  shows "wellFormed s'"
proof (cases "checkBody body")
  case (Inl e)
  then show ?thesis using assms by (simp add: upsertPeriod_def)
next
  case (Inr d)
  then obtain row where "writePeriod userId d s = (row, s')"
    using assms(2) by (auto simp: upsertPeriod_def split: prod.splits)
  then show ?thesis using assms(1) by (rule wellFormed_writePeriod[rotated])
qed

lemma wellFormed_transactionDeleteMany:
  "wellFormed s \<Longrightarrow> wellFormed (transactionDeleteMany i s)"
  unfolding transactionDeleteMany_def by (rule wellFormed_transactions_filter)

lemma wellFormed_transactionDelete:
  "wellFormed s \<Longrightarrow> wellFormed (transactionDelete i s)"
  unfolding transactionDelete_def by (rule wellFormed_transactions_filter)

lemma wellFormed_deletePeriod:
  assumes "wellFormed s" "deletePeriod userId i s = (res, s')"
  shows "wellFormed s'"
  using assms
  by (auto simp: deletePeriod_def wellFormed_savingDelete split: option.splits if_splits)

lemma wellFormed_forceDeletePeriod:
  assumes "wellFormed s" "forceDeletePeriod userId i s = (res, s')"
  shows "wellFormed s'"
  using assms
  by (auto simp: forceDeletePeriod_def wellFormed_savingDelete wellFormed_transactionDeleteMany
      Let_def split: option.splits)

lemma wellFormed_createTransaction:
  assumes "wellFormed s" "createTransaction userId now body s = (res, s')"
  shows "wellFormed s'"
proof (cases "\<not> truthy (b_amount body) \<or> \<not> truthy (b_savingId body) \<or> the (b_amount body) \<le> 0")
  case True
  then show ?thesis using assms by (auto simp: createTransaction_def split: if_splits)
next
  case False
  let ?P = "\<lambda>r. s_id r = the (b_savingId body) \<and> s_userId r = userId"
  show ?thesis
  proof (cases "find ?P (savings s)")
    case None
    then show ?thesis using assms False by (auto simp: createTransaction_def)
  next
    case (Some r)
    let ?t = "\<lparr>t_id = 0, t_userId = userId, savingId = the (b_savingId body),
                   amount = the (b_amount body), t_type = ''expense'',
                   description =
                     Some (if truthyString (b_description body) then the (b_description body)
                           else ''''),
                   date = (if truthy (b_date body) then the (b_date body) else now)\<rparr>"
    obtain row where "transactionCreate ?t s = (row, s')"
      using assms(2) False Some by (auto simp: createTransaction_def split: prod.splits)
    moreover have "r \<in> set (savings s)" "savingId ?t = s_id r" "t_userId ?t = s_userId r"
      using find_SomeD[OF Some] by simp_all
    ultimately show ?thesis using assms(1) wellFormed_transactionCreate by blast
  qed
qed

lemma wellFormed_updateTransaction:
  assumes "wellFormed s" "updateTransaction userId i p s = (res, s')"
  shows "wellFormed s'"
  using assms
  by (auto simp: updateTransaction_def wellFormed_transactionUpdate split: option.splits)

lemma wellFormed_deleteTransaction:
  assumes "wellFormed s" "deleteTransaction userId i s = (res, s')"
  shows "wellFormed s'"
  using assms
  by (auto simp: deleteTransaction_def wellFormed_transactionDelete split: option.splits)

lemma wellFormed_handle:
  assumes "wellFormed s" "handle userId now req s = (resp, s')"
  shows "wellFormed s'"
proof (cases req)
  case (UpsertPeriod body)
  then show ?thesis using assms wellFormed_upsertPeriod[OF assms(1), of userId body]
    by (auto split: prod.splits sum.splits)
next
  case (DeletePeriod i)
  then show ?thesis using assms wellFormed_deletePeriod[OF assms(1), of userId i]
    by (auto split: prod.splits sum.splits)
next
  case (ForceDeletePeriod i)
  then show ?thesis using assms wellFormed_forceDeletePeriod[OF assms(1), of userId i]
    by (auto split: prod.splits sum.splits)
next
  case (CreateTransaction body)
  then show ?thesis using assms wellFormed_createTransaction[OF assms(1), of userId now body]
    by (auto split: prod.splits sum.splits)
next
  case (UpdateTransaction i p)
  then show ?thesis using assms wellFormed_updateTransaction[OF assms(1), of userId i p]
    by (auto split: prod.splits sum.splits)
next
  case (DeleteTransaction i)
  then show ?thesis using assms wellFormed_deleteTransaction[OF assms(1), of userId i]
    by (auto split: prod.splits sum.splits)
qed (use assms in \<open>auto simp: Let_def split: sum.splits\<close>)

subsection \<open>Lookups, deletions and updates\<close>

lemma owned_saving_found:
  assumes "wellFormed s" "r \<in> set (savings s)" "s_userId r = userId"
  shows "find (\<lambda>x. s_id x = s_id r \<and> s_userId x = userId) (savings s) = Some r"
  using assms by (intro find_by_id) (simp_all add: wellFormed_def)

lemma savings_without:
  assumes "wellFormed s" "r \<in> set (savings s)"
  shows "filter (\<lambda>x. s_id x \<noteq> s_id r) (savings s) = remove1 r (savings s)"
  using assms by (intro filter_other_ids) (simp_all add: wellFormed_def)

lemma no_saving_after_delete:
  assumes "wellFormed s" "r \<in> set (savings s)"
  shows "find (\<lambda>x. s_id x = s_id r \<and> Q x) (remove1 r (savings s)) = None"
proof -
  have "remove1 r (savings s) = filter (\<lambda>x. s_id x \<noteq> s_id r) (savings s)"
    using savings_without[OF assms] by simp
  then show ?thesis by (simp add: find_None_iff)
qed

lemma no_transaction_after_delete:
  assumes "wellFormed s" "t \<in> set (transactions s)" "savingId t = i"
  shows "find (\<lambda>x. t_id x = t_id t \<and> Q x) (filter (\<lambda>x. savingId x \<noteq> i) (transactions s)) = None"
proof -
  have "\<And>x. x \<in> set (transactions s) \<Longrightarrow> t_id x = t_id t \<Longrightarrow> x = t"
    using assms(1,2) unfolding wellFormed_def by (metis distinct_map inj_onD)
  then show ?thesis using assms(3) by (auto simp: find_None_iff)
qed

lemma update_by_id:
  assumes "distinct (map f xs)" "x \<in> set xs"
  shows "map (\<lambda>y. if f y = f x then g y else y) xs = map (\<lambda>y. if y = x then g x else y) xs"
proof -
  have "\<And>y. y \<in> set xs \<Longrightarrow> f y = f x \<Longrightarrow> y = x"
    using assms by (metis distinct_map inj_onD)
  then show ?thesis by (intro map_cong) auto
qed

lemma patchData_fields:
  "patchData p t =
     t\<lparr>amount := (case p_amount p of None \<Rightarrow> amount t
                   | Some a \<Rightarrow> if a = 0 then amount t else a),
       description := (case p_description p of None \<Rightarrow> description t | Some d \<Rightarrow> Some d),
       date := (case p_date p of None \<Rightarrow> date t | Some d \<Rightarrow> if d = 0 then date t else d)\<rparr>"
  by (cases "p_amount p"; cases "p_description p"; cases "p_date p")
     (simp_all add: patchData_def truthy_def Let_def)

lemma wellFormed_ledgerDb: "wellFormed ledgerDb"
  by (simp add: wellFormed_def ledgerDb_def januarySaving_def expense_def)

lemma wellFormed_afterFirst: "wellFormed afterFirst"
  by (simp add: wellFormed_def afterFirst_def firstRow_def)

lemma orderByDateDesc_ledger:
  "orderByDateDesc [expense 1 10 1735718400000, expense 2 20 1735732800000,
                    expense 3 30 1735754400000]
     = [expense 3 30 1735754400000, expense 2 20 1735732800000, expense 1 10 1735718400000]"
  by (simp add: orderByDateDesc_def expense_def)

lemma getDate_ledger:
  "getDate 1735718400000 = 1" "getDate 1735732800000 = 1" "getDate 1735754400000 = 1"
  by (simp_all add: getDate_def DateFromTime_def Day_def msPerDay_def YearFromDay_def
      DayFromYear_def InLeapYear_def DaysInYear_def DateFromDayWithinYear_def
      MonthFromDayWithinYear_def)

lemma toFixed2_ledger:
  "toFixed2 (- 55) = ''-55.00''" "toFixed2 (- 45) = ''-45.00''" "toFixed2 (- 25) = ''-25.00''"
  by (simp_all add: toFixed2_def showNat.simps digitChar_def)

text \<open>
  The running total of the row visited last is the sum of all amounts, and each row adds its
  own amount to the total of the rows visited before it.
\<close>

lemma withCalculations_append:
  "withCalculations r a (ts @ us)
     = withCalculations r a ts @ withCalculations r (a + sum_list (map amount ts)) us"
  by (induction ts arbitrary: a) (simp_all add: Let_def add.assoc)

lemma withCalculations_last:
  "runningTotal (last (withCalculations r a (ts @ [t]))) = a + sum_list (map amount ts) + amount t"
  by (simp add: withCalculations_append Let_def)

text \<open>The checks of \<open>createTransaction\<close> on the amount.\<close>

lemma createTransaction_rejects_amount:
  assumes "b_amount body = None \<or> (\<exists>a. b_amount body = Some a \<and> a \<le> 0)"
  shows "isValidationError (fst (createTransaction userId now body s))
     \<and> snd (createTransaction userId now body s) = s"
  using assms
  by (auto simp: createTransaction_def truthy_def isValidationError_def)

lemma createTransaction_stores_positive:
  assumes "createTransaction userId now body s = (Inr (row, r), s')"
  shows "0 < amount row \<and> transactions s' = transactions s @ [row]"
  using assms
  by (auto simp: createTransaction_def transactionCreate_def Let_def
      split: if_splits option.splits)

subsection \<open>Rows of other users\<close>

lemma filter_map_own:
  assumes "\<forall>x \<in> set xs. c x \<longrightarrow> f x = u" "\<And>x. f (g x) = f x" "other \<noteq> u"
  shows "filter (\<lambda>x. f x = other) (map (\<lambda>x. if c x then g x else x) xs)
     = filter (\<lambda>x. f x = other) xs"
  using assms by (induction xs) auto

lemma filter_filter_own:
  assumes "\<forall>x \<in> set xs. \<not> Q x \<longrightarrow> f x = u" "other \<noteq> u"
  shows "filter (\<lambda>x. f x = other) (filter Q xs) = filter (\<lambda>x. f x = other) xs"
  using assms by (induction xs) auto

lemma same_id_saving:
  assumes "wellFormed s" "r \<in> set (savings s)" "x \<in> set (savings s)" "s_id x = s_id r"
  shows "x = r"
  using assms unfolding wellFormed_def by (metis distinct_map inj_onD)

lemma same_id_transaction:
  assumes "wellFormed s" "t \<in> set (transactions s)" "x \<in> set (transactions s)"
    "t_id x = t_id t"
  shows "x = t"
  using assms unfolding wellFormed_def by (metis distinct_map inj_onD)

lemma writePeriod_rowsOf:
  assumes "wellFormed s" "writePeriod userId d s = (row, s')" "other \<noteq> userId"
  shows "rowsOf other s' = rowsOf other s"
proof (cases "d_period d = ''weekly''")
  case True
  let ?P = "\<lambda>r. (s_userId r, month r, year r, weekNumber r)
                  = (userId, d_month d, d_year d, Some (the (d_weekNumber d)))"
  show ?thesis
  proof (cases "find ?P (savings s)")
    case None
    then show ?thesis using assms True
      by (auto simp: rowsOf_def writePeriod_def savingUpsert_def savingCreate_def
          createData_def Let_def)
  next
    case (Some ex)
    then have s': "s' = s\<lparr>savings := map (\<lambda>r. if ?P r then updateData d r else r) (savings s)\<rparr>"
      using assms(2) True by (auto simp: writePeriod_def savingUpsert_def)
    have "filter (\<lambda>x. s_userId x = other) (map (\<lambda>r. if ?P r then updateData d r else r) (savings s))
        = filter (\<lambda>x. s_userId x = other) (savings s)"
      using assms(3) by (intro filter_map_own[where u = userId]) (simp_all add: updateData_def)
    then show ?thesis unfolding s' by (simp add: rowsOf_def)
  qed
next
  case False
  let ?P = "\<lambda>r. s_userId r = userId \<and> month r = d_month d \<and> year r = d_year d
                         \<and> weekNumber r = None"
  show ?thesis
  proof (cases "find ?P (savings s)")
    case None
    then show ?thesis using assms False
      by (auto simp: rowsOf_def writePeriod_def savingCreate_def createData_def Let_def)
  next
    case (Some ex)
    then have s': "s' = s\<lparr>savings := map (\<lambda>r. if s_id r = s_id ex then updateData d r else r)
        (savings s)\<rparr>"
      using assms(2) False by (auto simp: writePeriod_def savingUpdate_def)
    have ex: "ex \<in> set (savings s)" "s_userId ex = userId" using find_SomeD[OF Some] by simp_all
    have "\<forall>x \<in> set (savings s). s_id x = s_id ex \<longrightarrow> s_userId x = userId"
      using same_id_saving[OF assms(1) ex(1)] ex(2) by blast
    then have "filter (\<lambda>x. s_userId x = other)
          (map (\<lambda>r. if s_id r = s_id ex then updateData d r else r) (savings s))
        = filter (\<lambda>x. s_userId x = other) (savings s)"
      using assms(3) by (intro filter_map_own[where u = userId]) (simp_all add: updateData_def)
    then show ?thesis unfolding s' by (simp add: rowsOf_def)
  qed
qed

lemma savingDelete_rowsOf:
  assumes "wellFormed s" "r \<in> set (savings s)" "s_userId r = userId" "other \<noteq> userId"
  shows "rowsOf other (savingDelete (s_id r) s) = rowsOf other s"
proof -
  have a: "\<forall>x \<in> set (savings s). \<not> s_id x \<noteq> s_id r \<longrightarrow> s_userId x = userId"
    using same_id_saving[OF assms(1,2)] assms(3) by blast
  have b: "\<forall>t \<in> set (transactions s). \<not> savingId t \<noteq> s_id r \<longrightarrow> t_userId t = userId"
    using wellFormed_owner[OF assms(1) _ assms(2)] assms(3) by auto
  show ?thesis
    using filter_filter_own[OF a assms(4)] filter_filter_own[OF b assms(4)]
    by (simp add: rowsOf_def savingDelete_def)
qed

lemma transactionDeleteMany_rowsOf:
  assumes "wellFormed s" "r \<in> set (savings s)" "s_userId r = userId" "other \<noteq> userId"
  shows "rowsOf other (transactionDeleteMany (s_id r) s) = rowsOf other s"
proof -
  have b: "\<forall>t \<in> set (transactions s). \<not> savingId t \<noteq> s_id r \<longrightarrow> t_userId t = userId"
    using wellFormed_owner[OF assms(1) _ assms(2)] assms(3) by auto
  show ?thesis
    using filter_filter_own[OF b assms(4)]
    by (simp add: rowsOf_def transactionDeleteMany_def)
qed

lemma transactionCreate_rowsOf:
  assumes "t_userId t = userId" "transactionCreate t s = (row, s')" "other \<noteq> userId"
  shows "rowsOf other s' = rowsOf other s"
  using assms by (auto simp: rowsOf_def transactionCreate_def Let_def)

lemma transactionUpdate_rowsOf:
  assumes "wellFormed s" "t \<in> set (transactions s)" "t_userId t = userId" "other \<noteq> userId"
  shows "rowsOf other (transactionUpdate (t_id t) (patchData p) s) = rowsOf other s"
proof -
  have "\<forall>x \<in> set (transactions s). t_id x = t_id t \<longrightarrow> t_userId x = userId"
    using same_id_transaction[OF assms(1,2)] assms(3) by blast
  then have "filter (\<lambda>x. t_userId x = other)
        (map (\<lambda>x. if t_id x = t_id t then patchData p x else x) (transactions s))
      = filter (\<lambda>x. t_userId x = other) (transactions s)"
    using assms(4) by (intro filter_map_own[where u = userId]) (simp_all add: patchData_keeps)
  then show ?thesis by (simp add: rowsOf_def transactionUpdate_def)
qed

lemma transactionDelete_rowsOf:
  assumes "wellFormed s" "t \<in> set (transactions s)" "t_userId t = userId" "other \<noteq> userId"
  shows "rowsOf other (transactionDelete (t_id t) s) = rowsOf other s"
proof -
  have b: "\<forall>x \<in> set (transactions s). \<not> t_id x \<noteq> t_id t \<longrightarrow> t_userId x = userId"
    using same_id_transaction[OF assms(1,2)] assms(3) by blast
  show ?thesis
    using filter_filter_own[OF b assms(4)]
    by (simp add: rowsOf_def transactionDelete_def)
qed

lemma set_orderByDateDesc: "set (orderByDateDesc ts) = set ts"
  by (simp add: orderByDateDesc_def)

lemma set_orderByYearMonthDesc: "set (orderByYearMonthDesc rs) = set rs"
  by (simp add: orderByYearMonthDesc_def)

lemma map_c_transaction: "map c_transaction (withCalculations r a ts) = ts"
  by (induction ts arbitrary: a) (simp_all add: Let_def)

lemma savingOf_owner:
  assumes "wellFormed s" "t \<in> set (transactions s)" "savingOf s t = Some r"
  shows "s_userId r = t_userId t"
proof -
  have "r \<in> set (savings s)" "s_id r = savingId t"
    using find_SomeD[OF assms(3)[unfolded savingOf_def]] by simp_all
  then show ?thesis using wellFormed_owner[OF assms(1,2)] by simp
qed

lemma foreignSaving_not_found:
  assumes "wellFormed s" "foreignSaving userId i s"
  shows "find (\<lambda>r. s_id r = i \<and> s_userId r = userId) (savings s) = None"
proof -
  obtain r where r: "r \<in> set (savings s)" "s_id r = i" "s_userId r \<noteq> userId"
    using assms(2) by (auto simp: foreignSaving_def list_ex_iff)
  have "find (\<lambda>x. s_id x = s_id r \<and> s_userId x = userId) (savings s) = None"
    using assms(1) r by (intro find_by_id_None) (simp_all add: wellFormed_def)
  then show ?thesis using r(2) by simp
qed

lemma foreignTransaction_not_found:
  assumes "wellFormed s" "foreignTransaction userId i s"
  shows "find (\<lambda>t. t_id t = i \<and> t_userId t = userId) (transactions s) = None"
proof -
  obtain t where t: "t \<in> set (transactions s)" "t_id t = i" "t_userId t \<noteq> userId"
    using assms(2) by (auto simp: foreignTransaction_def list_ex_iff)
  have "find (\<lambda>x. t_id x = t_id t \<and> t_userId x = userId) (transactions s) = None"
    using assms(1) t by (intro find_by_id_None) (simp_all add: wellFormed_def)
  then show ?thesis using t(2) by simp
qed

lemma listPeriods_rows:
  assumes "l \<in> set (listPeriods userId s)"
  shows "l_saving l \<in> set (savings s) \<and> s_userId (l_saving l) = userId
     \<and> l_transactions l = transactionsOf s (l_saving l)"
  using assms by (auto simp: listPeriods_def set_orderByYearMonthDesc Let_def)

lemma transactionsOf_owner:
  assumes "wellFormed s" "r \<in> set (savings s)" "t \<in> set (transactionsOf s r)"
  shows "t_userId t = s_userId r"
  using assms wellFormed_owner[OF assms(1) _ assms(2), of t] by (simp add: transactionsOf_def)

lemma handle_foreign_delete:
  "handle 2 0 (DeleteTransaction 2) ledgerDb
     = (Failure (NotFound ''Transaction not found''), ledgerDb)"
  by (simp add: deleteTransaction_def ledgerDb_def expense_def)

lemma select_refused:
  "\<not> selectable [''monthlyAmount'', ''dailyBudget'', ''month'', ''year'']"
  by (simp add: selectable_def savingColumns_def)

lemma select_accepted: "selectable [''month'', ''year'', ''dailyBudget'']"
  by (simp add: selectable_def savingColumns_def)

lemma handle_own_list:
  "handle 1 0 (ListTransactions None None) ledgerDb
     = (Payload [januarySaving, januarySaving, januarySaving]
          [expense 3 30 1735754400000, expense 2 20 1735732800000,
           expense 1 10 1735718400000], ledgerDb)"
proof -
  have own: "filter (\<lambda>t. t_userId t = 1) (transactions ledgerDb)
      = [expense 1 10 1735718400000, expense 2 20 1735732800000, expense 3 30 1735754400000]"
    by (simp add: ledgerDb_def expense_def)
  have sv: "\<And>i a d. savingOf ledgerDb (expense i a d) = Some januarySaving"
    by (simp add: savingOf_def ledgerDb_def januarySaving_def expense_def)
  show ?thesis
    by (simp add: listTransactions_def own orderByDateDesc_ledger Let_def sv)
qed

text \<open>
  The callback on the three expenses of \<open>ledgerDb\<close> in the order of the query, newest first,
  and the list reversed: the running totals are 60, 50 and 30 from the oldest row on.
\<close>

lemma withCalculations_ledger:
  "rev (withCalculations januarySaving 0
          (orderByDateDesc [expense 1 10 1735718400000, expense 2 20 1735732800000,
                            expense 3 30 1735754400000])) =
     [\<lparr>c_transaction = expense 1 10 1735718400000, runningTotal = 60,
        expectedSpent = 5, difference = ''-55.00''\<rparr>,
      \<lparr>c_transaction = expense 2 20 1735732800000, runningTotal = 50,
        expectedSpent = 5, difference = ''-45.00''\<rparr>,
      \<lparr>c_transaction = expense 3 30 1735754400000, runningTotal = 30,
        expectedSpent = 5, difference = ''-25.00''\<rparr>]"
proof -
  have am: "amount (expense 1 10 1735718400000) = 10" "amount (expense 2 20 1735732800000) = 20"
    "amount (expense 3 30 1735754400000) = 30"
    "date (expense 1 10 1735718400000) = 1735718400000"
    "date (expense 2 20 1735732800000) = 1735732800000"
    "date (expense 3 30 1735754400000) = 1735754400000"
    by (simp_all add: expense_def)
  have db: "dailyBudget januarySaving = 5" by (simp add: januarySaving_def)
  show ?thesis
    unfolding orderByDateDesc_ledger
    by (simp add: Let_def am db getDate_ledger toFixed2_ledger)
qed

section \<open>The claims\<close>

subsection \<open>Running totals of a period (C1)\<close>

text \<open>
  C1 asks that for every period of the caller the handler returns the transactions oldest
  first, the i-th of them with the sum of the first i amounts as its running total, so 10,
  30 and 60 for the amounts 10, 20 and 30. The handler does not return them: its query
  selects the field \<open>monthlyAmount\<close> of the saving, the table has \<open>monthlyIncome\<close> and no such
  column, and the request of the owner of a period with three expenses is answered with
  the internal error of status 500.
\<close>

theorem listTransactionsForPeriod_internal_error:
  "listTransactionsForPeriod 1 1 ledgerDb = Inl (InternalError ''Internal server error'')"
proof -
  have sv: "find (\<lambda>r. s_id r = 1 \<and> s_userId r = 1) (savings ledgerDb) = Some januarySaving"
    by (simp add: ledgerDb_def januarySaving_def)
  show ?thesis
    by (simp add: listTransactionsForPeriod_def sv select_refused)
qed

subsection \<open>Validation of a period (C2)\<close>

text \<open>
  C2, as amended. For a body whose saving target, year and week number are not the number 0,
  \<open>upsertPeriod\<close> fails with a validation error exactly when the income or the target is
  missing, the income is not positive, the target is negative, the target is not below the
  income, month or year is missing, the month is outside 1 to 12, or the period is weekly
  and the week number is missing. So every body with \<open>0 < target < income\<close>, a month from 1
  to 12 and a year passes (on the weekly path, with a week number).
\<close>

theorem upsertPeriod_validation:
  assumes "b_savingTarget body \<noteq> Some 0" "b_year body \<noteq> Some 0"
    and "b_weekNumber body \<noteq> Some 0"
  shows "isValidationError (fst (upsertPeriod userId body s)) \<longleftrightarrow>
     (b_monthlyIncome body = None \<or> b_savingTarget body = None
      \<or> (\<exists>income. b_monthlyIncome body = Some income \<and> income \<le> 0)
      \<or> (\<exists>target. b_savingTarget body = Some target \<and> target < 0)
      \<or> (\<exists>income target. b_monthlyIncome body = Some income
            \<and> b_savingTarget body = Some target \<and> target \<ge> income)
      \<or> b_month body = None \<or> b_year body = None
      \<or> (\<exists>mo. b_month body = Some mo \<and> (mo < 1 \<or> mo > 12))
      \<or> (periodOf body = ''weekly'' \<and> b_weekNumber body = None))"
  unfolding upsertPeriod_fails_iff checkBody_Inr_iff truthy_iff using assms
  by (cases "b_monthlyIncome body"; cases "b_savingTarget body"; cases "b_month body";
      cases "b_year body"; cases "b_weekNumber body") (auto simp: not_le not_less)

theorem upsertPeriod_validation_witness:
  "b_savingTarget monthlyBody \<noteq> Some 0 \<and> b_year monthlyBody \<noteq> Some 0
   \<and> b_weekNumber monthlyBody \<noteq> Some 0
   \<and> \<not> isValidationError (fst (upsertPeriod 1 monthlyBody emptyDb))"
  using upsertPeriod_validation[of monthlyBody 1 emptyDb]
  by (simp add: monthlyBody_def periodOf_def)

text \<open>
  The claim as it is stated fails twice: a target of 0 with a positive income is answered with
  a validation error (the number 0 is falsy in the first check), and so is a weekly period
  without a week number, which is none of the conditions that the claim lists.
\<close>

theorem upsertPeriod_validation_counterexample:
  "isValidationError (fst (upsertPeriod 1
      \<lparr>b_monthlyIncome = Some 3200, b_savingTarget = Some 0, b_period = None,
       b_month = Some 1, b_year = Some 2025, b_weekNumber = None\<rparr> emptyDb))
   \<and> isValidationError (fst (upsertPeriod 1
      \<lparr>b_monthlyIncome = Some 3200, b_savingTarget = Some 100, b_period = Some ''weekly'',
       b_month = Some 1, b_year = Some 2025, b_weekNumber = None\<rparr> emptyDb))"
  by (simp add: upsertPeriod_def checkBody_def periodOf_def truthy_def isValidationError_def)

subsection \<open>Positive amounts (C3)\<close>

text \<open>
  C3 asks that every stored transaction has a positive amount and that every operation of
  the ledger keeps it so. \<open>createTransaction\<close> rejects an amount that is missing or not
  positive, but \<open>updateTransaction\<close> applies any truthy amount without a check: a patch with
  the amount \<open>-5\<close> on a transaction of the caller with the amount 20 stores the amount
  \<open>-5\<close>.
\<close>

theorem updateTransaction_stores_negative_amount:
  "updateTransaction 1 2 \<lparr>p_amount = Some (- 5), p_description = None, p_date = None\<rparr> ledgerDb
     = (Inr (expense 2 (- 5) 1735732800000, Some januarySaving),
        ledgerDb\<lparr>transactions := [expense 1 10 1735718400000, expense 2 (- 5) 1735732800000,
                                   expense 3 30 1735754400000]\<rparr>)"
  by (simp add: updateTransaction_def transactionUpdate_def patchData_def truthy_def
      ledgerDb_def expense_def savingOf_def januarySaving_def)

subsection \<open>Partial update of a transaction (C4)\<close>

text \<open>
  C4, as amended. For a transaction of the caller, \<open>updateTransaction\<close> stores the amount of
  the patch when it is present and not 0, the description of the patch when it is present,
  and the date of the patch when it is present and not 0; a field that is absent from the
  patch, or an amount or a date that is 0, leaves the stored value as it was. All other
  fields of the row, all other rows and the savings are unchanged.
\<close>

theorem updateTransaction_partial:
  assumes "wellFormed s" "t \<in> set (transactions s)" "t_userId t = userId"
    and "t' = t\<lparr>amount := (case p_amount p of None \<Rightarrow> amount t
                            | Some a \<Rightarrow> if a = 0 then amount t else a),
                description := (case p_description p of None \<Rightarrow> description t
                                | Some d \<Rightarrow> Some d),
                date := (case p_date p of None \<Rightarrow> date t
                         | Some d \<Rightarrow> if d = 0 then date t else d)\<rparr>"
  shows "updateTransaction userId (t_id t) p s =
           (Inr (t', savingOf s t),
            s\<lparr>transactions := map (\<lambda>x. if x = t then t' else x) (transactions s)\<rparr>)"
proof -
  have d: "distinct (map t_id (transactions s))" using assms(1) by (simp add: wellFormed_def)
  have f: "find (\<lambda>x. t_id x = t_id t \<and> t_userId x = userId) (transactions s) = Some t"
    using d assms(2,3) by (rule find_by_id)
  have t': "t' = patchData p t" using assms(4) by (simp add: patchData_fields)
  show ?thesis
    using f update_by_id[OF d assms(2), of "patchData p"]
    by (simp add: updateTransaction_def transactionUpdate_def t')
qed

theorem updateTransaction_partial_witness:
  "wellFormed ledgerDb \<and> expense 2 20 1735732800000 \<in> set (transactions ledgerDb)
   \<and> t_userId (expense 2 20 1735732800000) = 1
   \<and> updateTransaction 1 2 \<lparr>p_amount = Some 25, p_description = None, p_date = None\<rparr> ledgerDb
       = (Inr (expense 2 25 1735732800000, Some januarySaving),
          ledgerDb\<lparr>transactions := [expense 1 10 1735718400000, expense 2 25 1735732800000,
                                     expense 3 30 1735754400000]\<rparr>)"
proof -
  have m: "expense 2 20 1735732800000 \<in> set (transactions ledgerDb)"
    by (simp add: ledgerDb_def)
  have u: "t_userId (expense 2 20 1735732800000) = 1" by (simp add: expense_def)
  show ?thesis
    using updateTransaction_partial[OF wellFormed_ledgerDb m u refl,
        of "\<lparr>p_amount = Some 25, p_description = None, p_date = None\<rparr>"]
      wellFormed_ledgerDb m u
    by (simp add: expense_def ledgerDb_def savingOf_def januarySaving_def)
qed

text \<open>
  The claim as it is stated fails: an amount of 0 and a date of 0 are present in the patch
  and are not applied.
\<close>

theorem updateTransaction_partial_counterexample:
  "updateTransaction 1 2 \<lparr>p_amount = Some 0, p_description = None, p_date = Some 0\<rparr> ledgerDb
     = (Inr (expense 2 20 1735732800000, Some januarySaving), ledgerDb)"
  by (simp add: updateTransaction_def transactionUpdate_def patchData_def truthy_def
      ledgerDb_def expense_def savingOf_def januarySaving_def)

subsection \<open>Derived fields of a period (C5)\<close>

text \<open>
  C5. Whenever \<open>upsertPeriod\<close> succeeds, the row it returns is stored, carries the income,
  target, month and year of the body, and its derived fields are
  \<open>availableAmount = income - target\<close> and \<open>dailyBudget = availableAmount / dayCount\<close>, the
  day count being 7 for a weekly period and otherwise the number of days of that month in
  the calendar, leap years included.
\<close>

theorem upsertPeriod_derived_fields:
  assumes "upsertPeriod userId body s = (Inr row, s')"
  shows "\<exists>income target mo yr.
           b_monthlyIncome body = Some income \<and> b_savingTarget body = Some target
           \<and> b_month body = Some mo \<and> b_year body = Some yr
           \<and> row \<in> set (savings s')
           \<and> monthlyIncome row = income \<and> savingTarget row = target
           \<and> month row = mo \<and> year row = yr \<and> period row = periodOf body
           \<and> availableAmount row = income - target
           \<and> dailyBudget row = availableAmount row / real_of_int (dayCount (period row) mo yr)"
proof -
  obtain d where d: "checkBody body = Inr d" and w: "writePeriod userId d s = (row, s')"
    using assms by (rule upsertPeriod_Inr)
  from d obtain income target mo yr where b:
    "b_monthlyIncome body = Some income" "b_savingTarget body = Some target"
    "b_month body = Some mo" "1 \<le> mo" "mo \<le> 12" "b_year body = Some yr" "yr \<noteq> 0"
    and dd: "d = \<lparr>finalMonthlyIncome = income, finalSavingTarget = target,
                 finalAvailableAmount = income - target,
                 finalDailyBudget = (income - target) /
                    real_of_int (if periodOf body = ''weekly'' then 7
                                 else getDate (newDate yr mo 0)),
                 d_period = periodOf body, d_month = mo, d_year = yr,
                 d_weekNumber = b_weekNumber body\<rparr>"
    unfolding checkBody_Inr_iff by blast
  have days: "(if periodOf body = ''weekly'' then 7 else getDate (newDate yr mo 0))
      = dayCount (periodOf body) mo yr"
    using getDate_newDate[OF b(4,5,7)] by (simp add: dayCount_def)
  show ?thesis
    using writePeriod_row[OF w] b(1,2,3,6) unfolding dd days by simp
qed

theorem upsertPeriod_derived_fields_witness:
  "\<exists>row s'. upsertPeriod 1 monthlyBody emptyDb = (Inr row, s')
     \<and> row \<in> set (savings s') \<and> availableAmount row = 3200 - 100
     \<and> dailyBudget row = availableAmount row / real_of_int (dayCount ''monthly'' 1 2025)"
proof -
  have "3100 / real_of_int (dayCount ''monthly'' 1 2025) = (100::real)"
    using upsertPeriod_derived_fields[OF upsert_monthlyBody]
    by (simp add: monthlyBody_def periodOf_def firstRow_def)
  then show ?thesis
    by (simp add: upsert_monthlyBody firstRow_def afterFirst_def)
qed

subsection \<open>One row for each key (C6)\<close>

text \<open>
  C6. Calls follow one another. From a database in which no two periods share their key
  (user, month, year, week number), a successful upsert leaves such a database. A second
  successful upsert of the same user for the same slot (the same month and year, both
  monthly or both weekly with the same week number) inserts nothing: the table keeps its
  length, the row returned has the id of the row of the first call, it is the only row
  with that key and it carries the income of the second body. With the same body the second
  call returns the row of the first.
\<close>

theorem upsertPeriod_no_duplicate:
  assumes uniq: "uniquePeriods s"
    and first: "upsertPeriod userId body1 s = (Inr row1, s1)"
    and second: "upsertPeriod userId body2 s1 = (Inr row2, s2)"
    and slot: "b_month body2 = b_month body1" "b_year body2 = b_year body1"
      "(periodOf body2 = ''weekly'') = (periodOf body1 = ''weekly'')"
      "periodOf body1 = ''weekly'' \<longrightarrow> b_weekNumber body2 = b_weekNumber body1"
  shows "uniquePeriods s1 \<and> uniquePeriods s2
     \<and> length (savings s2) = length (savings s1)
     \<and> s_id row2 = s_id row1 \<and> periodKey row2 = periodKey row1
     \<and> filter (\<lambda>r. periodKey r = periodKey row1) (savings s2) = [row2]
     \<and> monthlyIncome row2 = the (b_monthlyIncome body2)
     \<and> (body2 = body1 \<longrightarrow> row2 = row1)"
proof -
  obtain d1 where d1: "checkBody body1 = Inr d1" and w1: "writePeriod userId d1 s = (row1, s1)"
    using first by (rule upsertPeriod_Inr)
  obtain d2 where d2: "checkBody body2 = Inr d2" and w2: "writePeriod userId d2 s1 = (row2, s2)"
    using second by (rule upsertPeriod_Inr)
  have u1: "uniquePeriods s1" using uniq w1 by (rule writePeriod_unique)
  have u2: "uniquePeriods s2" using u1 w2 by (rule writePeriod_unique)
  note r1 = writePeriod_row[OF w1] and r2 = writePeriod_row[OF w2]
  have same: "d_month d2 = d_month d1" "d_year d2 = d_year d1"
    "(d_period d2 = ''weekly'') = (d_period d1 = ''weekly'')"
    "d_period d1 = ''weekly'' \<longrightarrow> d_weekNumber d2 = d_weekNumber d1"
    using d1 d2 slot unfolding checkBody_Inr_iff by auto
  have key: "periodKey row1 = (userId, d_month d2, d_year d2,
           if d_period d2 = ''weekly'' then Some (the (d_weekNumber d2)) else None)"
    using r1 same by (auto simp: periodKey_def)
  have ex: "fst (writePeriod userId d2 s1) = updateData d2 row1
     \<and> length (savings (snd (writePeriod userId d2 s1))) = length (savings s1)"
    using u1 _ key by (rule writePeriod_existing) (use r1 in simp)
  then have row2: "row2 = updateData d2 row1" and len: "length (savings s2) = length (savings s1)"
    using w2 by simp_all
  have k2: "periodKey row2 = periodKey row1" using row2 by (simp add: periodKey_updateData)
  have "filter (\<lambda>r. periodKey r = periodKey row2) (savings s2) = [row2]"
    using u2 r2 unfolding uniquePeriods_def by (intro filter_distinct_key) simp_all
  then have only: "filter (\<lambda>r. periodKey r = periodKey row1) (savings s2) = [row2]"
    using k2 by simp
  have inc: "monthlyIncome row2 = the (b_monthlyIncome body2)"
    using r2 d2 unfolding checkBody_Inr_iff by auto
  have idem: "body2 = body1 \<longrightarrow> row2 = row1"
  proof
    assume "body2 = body1"
    then have "d2 = d1" using d1 d2 by simp
    then show "row2 = row1" using row2 r1 by (simp add: updateData_fixed)
  qed
  show ?thesis using u1 u2 len row2 k2 only inc idem by (simp add: s_id_updateData)
qed

theorem upsertPeriod_no_duplicate_witness:
  "uniquePeriods emptyDb
   \<and> upsertPeriod 1 monthlyBody emptyDb = (Inr firstRow, afterFirst)
   \<and> upsertPeriod 1 (monthlyBody\<lparr>b_monthlyIncome := Some 6300\<rparr>) afterFirst
       = (Inr secondRow, afterSecond)
   \<and> length (savings afterSecond) = length (savings afterFirst)
   \<and> s_id secondRow = s_id firstRow
   \<and> filter (\<lambda>r. periodKey r = periodKey firstRow) (savings afterSecond) = [secondRow]"
proof -
  have u: "uniquePeriods emptyDb" by (simp add: uniquePeriods_def emptyDb_def)
  show ?thesis
    using upsertPeriod_no_duplicate[OF u upsert_monthlyBody upsert_monthlyBody_again]
      u upsert_monthlyBody upsert_monthlyBody_again
    by (simp add: monthlyBody_def periodOf_def)
qed

subsection \<open>Safe deletion of a period (C7)\<close>

text \<open>
  C7. For a period of the caller: when one or more transactions refer to it, \<open>deletePeriod\<close>
  fails with the conflict error that reports their number, and the database is unchanged;
  when no transaction refers to it, \<open>deletePeriod\<close> removes that row from the savings and
  changes nothing else.
\<close>

theorem deletePeriod_safe:
  assumes "wellFormed s" "r \<in> set (savings s)" "s_userId r = userId"
  shows "(filter (\<lambda>t. savingId t = s_id r) (transactions s) \<noteq> [] \<longrightarrow>
            (\<exists>msg. deletePeriod userId (s_id r) s =
               (Inl (Conflict msg (length (filter (\<lambda>t. savingId t = s_id r) (transactions s)))),
                s)))
     \<and> (filter (\<lambda>t. savingId t = s_id r) (transactions s) = [] \<longrightarrow>
            deletePeriod userId (s_id r) s =
              (Inr \<lparr>x_id = s_id r, x_month = month r, x_year = year r\<rparr>,
               s\<lparr>savings := remove1 r (savings s)\<rparr>))"
proof -
  note f = owned_saving_found[OF assms]
  have "filter (\<lambda>t. savingId t = s_id r) (transactions s) = [] \<Longrightarrow>
      savingDelete (s_id r) s = s\<lparr>savings := remove1 r (savings s)\<rparr>"
    using savings_without[OF assms(1,2)]
    by (simp add: savingDelete_def filter_none_other)
  then show ?thesis
    using f by (auto simp: deletePeriod_def transactionsOf_def)
qed

theorem deletePeriod_safe_witness:
  "wellFormed ledgerDb \<and> januarySaving \<in> set (savings ledgerDb) \<and> s_userId januarySaving = 1
   \<and> filter (\<lambda>t. savingId t = s_id januarySaving) (transactions ledgerDb) \<noteq> []
   \<and> (\<exists>msg. deletePeriod 1 1 ledgerDb = (Inl (Conflict msg 3), ledgerDb))
   \<and> wellFormed afterFirst \<and> firstRow \<in> set (savings afterFirst) \<and> s_userId firstRow = 1
   \<and> filter (\<lambda>t. savingId t = s_id firstRow) (transactions afterFirst) = []
   \<and> deletePeriod 1 1 afterFirst =
        (Inr \<lparr>x_id = 1, x_month = 1, x_year = 2025\<rparr>, afterFirst\<lparr>savings := []\<rparr>)"
proof -
  have a: "januarySaving \<in> set (savings ledgerDb)" "s_userId januarySaving = 1"
    by (simp_all add: ledgerDb_def januarySaving_def)
  have b: "firstRow \<in> set (savings afterFirst)" "s_userId firstRow = 1"
    by (simp_all add: afterFirst_def firstRow_def)
  have c: "filter (\<lambda>t. savingId t = 1) (transactions ledgerDb) = transactions ledgerDb"
    by (simp add: ledgerDb_def expense_def)
  have d: "filter (\<lambda>t. savingId t = 1) (transactions afterFirst) = []"
    by (simp add: afterFirst_def)
  have e: "transactions ledgerDb \<noteq> []" "length (transactions ledgerDb) = 3"
    "s_id januarySaving = 1"
    by (simp_all add: ledgerDb_def januarySaving_def)
  have f: "s_id firstRow = 1" "month firstRow = 1" "year firstRow = 2025"
    "remove1 firstRow (savings afterFirst) = []"
    by (simp_all add: afterFirst_def firstRow_def)
  show ?thesis
    using deletePeriod_safe[OF wellFormed_ledgerDb a]
      deletePeriod_safe[OF wellFormed_afterFirst b]
      wellFormed_ledgerDb wellFormed_afterFirst a b e(1)
    unfolding e(2,3) f c d by simp
qed

subsection \<open>Forced deletion of a period (C8)\<close>

text \<open>
  C8. For a period of the caller to which N transactions refer, \<open>forceDeletePeriod\<close>
  reports N, and in the database it returns the period and all N transactions are gone,
  in one step, while nothing else changes. Afterwards every lookup of the period by its
  id, and every lookup of one of those transactions by its id, fails with the not-found
  error, whoever asks.
\<close>

theorem forceDeletePeriod_removes_all:
  assumes "wellFormed s" "r \<in> set (savings s)" "s_userId r = userId"
  shows "forceDeletePeriod userId (s_id r) s =
           ((Inr (\<lparr>x_id = s_id r, x_month = month r, x_year = year r\<rparr>,
                  length (filter (\<lambda>t. savingId t = s_id r) (transactions s)))),
            s\<lparr>savings := remove1 r (savings s),
              transactions := filter (\<lambda>t. savingId t \<noteq> s_id r) (transactions s)\<rparr>)
     \<and> isNotFound (listTransactionsForPeriod caller (s_id r) (snd (forceDeletePeriod userId (s_id r) s)))
     \<and> isNotFound (fst (deletePeriod caller (s_id r) (snd (forceDeletePeriod userId (s_id r) s))))
     \<and> isNotFound (fst (forceDeletePeriod caller (s_id r)
                          (snd (forceDeletePeriod userId (s_id r) s))))
     \<and> (\<forall>t \<in> set (transactions s). savingId t = s_id r \<longrightarrow>
           isNotFound (fst (updateTransaction caller (t_id t) p
                              (snd (forceDeletePeriod userId (s_id r) s))))
           \<and> isNotFound (fst (deleteTransaction caller (t_id t)
                              (snd (forceDeletePeriod userId (s_id r) s)))))"
proof -
  let ?s' = "s\<lparr>savings := remove1 r (savings s),
              transactions := filter (\<lambda>t. savingId t \<noteq> s_id r) (transactions s)\<rparr>"
  note f = owned_saving_found[OF assms]
  have del: "savingDelete (s_id r) (transactionDeleteMany (s_id r) s) = ?s'"
    using savings_without[OF assms(1,2)]
    by (simp add: savingDelete_def transactionDeleteMany_def)
  have res: "forceDeletePeriod userId (s_id r) s =
           ((Inr (\<lparr>x_id = s_id r, x_month = month r, x_year = year r\<rparr>,
                  length (filter (\<lambda>t. savingId t = s_id r) (transactions s)))), ?s')"
    using f del by (simp add: forceDeletePeriod_def transactionsOf_def Let_def)
  have gone: "\<And>Q. find (\<lambda>x. s_id x = s_id r \<and> Q x) (remove1 r (savings s)) = None"
    using no_saving_after_delete[OF assms(1,2)] by simp
  have tgone: "\<And>t Q. t \<in> set (transactions s) \<Longrightarrow> savingId t = s_id r \<Longrightarrow>
      find (\<lambda>x. t_id x = t_id t \<and> Q x)
        (filter (\<lambda>x. savingId x \<noteq> s_id r) (transactions s)) = None"
    using no_transaction_after_delete[OF assms(1)] by simp
  show ?thesis
    unfolding res snd_conv
    by (auto simp: gone tgone listTransactionsForPeriod_def deletePeriod_def
        forceDeletePeriod_def updateTransaction_def deleteTransaction_def isNotFound_def)
qed

theorem forceDeletePeriod_removes_all_witness:
  "wellFormed ledgerDb \<and> januarySaving \<in> set (savings ledgerDb) \<and> s_userId januarySaving = 1
   \<and> forceDeletePeriod 1 1 ledgerDb =
        (Inr (\<lparr>x_id = 1, x_month = 1, x_year = 2025\<rparr>, 3),
         ledgerDb\<lparr>savings := [], transactions := []\<rparr>)
   \<and> expense 2 20 1735732800000 \<in> set (transactions ledgerDb)
   \<and> savingId (expense 2 20 1735732800000) = s_id januarySaving
   \<and> isNotFound (fst (deleteTransaction 1 2 (ledgerDb\<lparr>savings := [], transactions := []\<rparr>)))"
proof -
  have a: "januarySaving \<in> set (savings ledgerDb)" "s_userId januarySaving = 1"
    by (simp_all add: ledgerDb_def januarySaving_def)
  have m: "expense 2 20 1735732800000 \<in> set (transactions ledgerDb)"
    "savingId (expense 2 20 1735732800000) = s_id januarySaving"
    "t_id (expense 2 20 1735732800000) = 2"
    by (simp_all add: ledgerDb_def januarySaving_def expense_def)
  have c: "filter (\<lambda>t. savingId t = 1) (transactions ledgerDb) = transactions ledgerDb"
    "filter (\<lambda>t. savingId t \<noteq> 1) (transactions ledgerDb) = []"
    by (simp_all add: ledgerDb_def expense_def)
  have e: "length (transactions ledgerDb) = 3" "s_id januarySaving = 1"
    "month januarySaving = 1" "year januarySaving = 2025"
    "remove1 januarySaving (savings ledgerDb) = []"
    by (simp_all add: ledgerDb_def januarySaving_def)
  show ?thesis
    using forceDeletePeriod_removes_all[OF wellFormed_ledgerDb a, of 1
        "\<lparr>p_amount = None, p_description = None, p_date = None\<rparr>"]
      wellFormed_ledgerDb a m
    unfolding e c by auto
qed

subsection \<open>Isolation of users (C9)\<close>

text \<open>
  C9, as amended. In a well-formed database, whatever request a user sends: every saving
  and every transaction in the payload of the response belongs to that user; the rows of
  every other user, in both tables, are the same after the request as before; and when a
  write request (create, update, delete or force-delete) names by id a saving or a
  transaction of another user, the database is unchanged and the request fails with the
  not-found error, unless it is a \<open>createTransaction\<close> whose amount or saving id is missing
  or whose amount is not positive, which fails with the validation error of the checks
  that come before the lookup.
\<close>

theorem handle_isolation:
  assumes wf: "wellFormed s" and run: "handle userId now req s = (resp, s')"
  shows "(\<forall>r \<in> set (savingRows resp). s_userId r = userId)
     \<and> (\<forall>t \<in> set (transactionRows resp). t_userId t = userId)
     \<and> (\<forall>other. other \<noteq> userId \<longrightarrow> rowsOf other s' = rowsOf other s)
     \<and> (foreignTarget userId req s \<longrightarrow>
           s' = s \<and> (if passesChecks req then failsNotFound resp else failsValidation resp))"
proof (cases req)
  case (UpsertPeriod body)
  show ?thesis
  proof (cases "checkBody body")
    case (Inl e)
    then show ?thesis using run UpsertPeriod by (auto simp: upsertPeriod_def)
  next
    case (Inr d)
    then obtain row where w: "writePeriod userId d s = (row, s')" and r: "resp = Payload [row] []"
      using run UpsertPeriod by (auto simp: upsertPeriod_def split: prod.splits)
    show ?thesis
      using writePeriod_row[OF w] writePeriod_rowsOf[OF wf w] r UpsertPeriod by simp
  qed
next
  case ListPeriods
  then have r: "resp = Payload (map l_saving (listPeriods userId s))
      (concat (map l_transactions (listPeriods userId s)))" and s': "s' = s"
    using run by (auto simp: Let_def)
  have "\<forall>t \<in> set (concat (map l_transactions (listPeriods userId s))). t_userId t = userId"
  proof
    fix t assume "t \<in> set (concat (map l_transactions (listPeriods userId s)))"
    then obtain l where l: "l \<in> set (listPeriods userId s)" "t \<in> set (l_transactions l)"
      by auto
    then show "t_userId t = userId"
      using listPeriods_rows[OF l(1)] transactionsOf_owner[OF wf, of "l_saving l" t] by simp
  qed
  then show ?thesis using r s' ListPeriods listPeriods_rows by auto
next
  case (GetPeriod yr mo)
  let ?P = "\<lambda>r. s_userId r = userId \<and> month r = mo \<and> year r = yr \<and> weekNumber r = None"
  show ?thesis
  proof (cases "find ?P (savings s)")
    case None
    then show ?thesis using run GetPeriod by (auto simp: getPeriod_def)
  next
    case (Some r)
    then have resp: "resp = Payload [r] (orderByDateDesc (transactionsOf s r))" and s': "s' = s"
      using run GetPeriod by (auto simp: getPeriod_def Let_def)
    have r: "r \<in> set (savings s)" "s_userId r = userId" using find_SomeD[OF Some] by simp_all
    show ?thesis
      using resp s' GetPeriod r transactionsOf_owner[OF wf r(1)]
      by (auto simp: set_orderByDateDesc)
  qed
next
  case (DeletePeriod i)
  let ?P = "\<lambda>r. s_id r = i \<and> s_userId r = userId"
  show ?thesis
  proof (cases "find ?P (savings s)")
    case None
    then show ?thesis using run DeletePeriod by (auto simp: deletePeriod_def)
  next
    case (Some r)
    have r: "r \<in> set (savings s)" "s_id r = i" "s_userId r = userId"
      using find_SomeD[OF Some] by simp_all
    have nf: "\<not> foreignTarget userId req s"
      using foreignSaving_not_found[OF wf, of userId i] Some DeletePeriod by auto
    show ?thesis
    proof (cases "length (transactionsOf s r) > 0")
      case True
      then show ?thesis using run DeletePeriod Some nf by (auto simp: deletePeriod_def)
    next
      case False
      then have "resp = Payload [] []" "s' = savingDelete (s_id r) s"
        using run DeletePeriod Some r(2) by (auto simp: deletePeriod_def)
      then show ?thesis using nf savingDelete_rowsOf[OF wf r(1,3)] by simp
    qed
  qed
next
  case (ForceDeletePeriod i)
  let ?P = "\<lambda>r. s_id r = i \<and> s_userId r = userId"
  show ?thesis
  proof (cases "find ?P (savings s)")
    case None
    then show ?thesis using run ForceDeletePeriod by (auto simp: forceDeletePeriod_def)
  next
    case (Some r)
    have r: "r \<in> set (savings s)" "s_id r = i" "s_userId r = userId"
      using find_SomeD[OF Some] by simp_all
    have nf: "\<not> foreignTarget userId req s"
      using foreignSaving_not_found[OF wf, of userId i] Some ForceDeletePeriod by auto
    let ?m = "transactionDeleteMany (s_id r) s"
    have m: "wellFormed ?m" "r \<in> set (savings ?m)"
      using wf r(1) by (simp_all add: wellFormed_transactionDeleteMany)
        (simp add: transactionDeleteMany_def)
    have "resp = Payload [] []" "s' = savingDelete (s_id r) ?m"
      using run ForceDeletePeriod Some r(2) by (auto simp: forceDeletePeriod_def Let_def)
    then show ?thesis
      using nf savingDelete_rowsOf[OF m r(3)] transactionDeleteMany_rowsOf[OF wf r(1,3)]
      by simp
  qed
next
  case (CreateTransaction body)
  show ?thesis
  proof (cases "passesChecks req")
    case False
    then have "failsValidation resp" "s' = s"
      using run CreateTransaction by (auto simp: createTransaction_def split: if_splits)
    then show ?thesis using False by (cases resp) auto
  next
    case True
    then have ok: "truthy (b_amount body)" "truthy (b_savingId body)" "0 < the (b_amount body)"
      using CreateTransaction by simp_all
    then obtain i where i: "b_savingId body = Some i" by (auto simp: truthy_iff)
    let ?P = "\<lambda>r. s_id r = i \<and> s_userId r = userId"
    show ?thesis
    proof (cases "find ?P (savings s)")
      case None
      then show ?thesis using run CreateTransaction ok i True
        by (auto simp: createTransaction_def)
    next
      case (Some r)
      have r: "r \<in> set (savings s)" "s_id r = i" "s_userId r = userId"
        using find_SomeD[OF Some] by simp_all
      have nf: "\<not> foreignTarget userId req s"
        using foreignSaving_not_found[OF wf, of userId i] Some CreateTransaction i by auto
      let ?t = "\<lparr>t_id = 0, t_userId = userId, savingId = the (b_savingId body),
                   amount = the (b_amount body), t_type = ''expense'',
                   description =
                     Some (if truthyString (b_description body) then the (b_description body)
                           else ''''),
                   date = (if truthy (b_date body) then the (b_date body) else now)\<rparr>"
      obtain row where c: "transactionCreate ?t s = (row, s')" and resp: "resp = Payload [r] [row]"
        using run CreateTransaction ok i Some
        by (auto simp: createTransaction_def split: prod.splits)
      have "t_userId row = userId" using c by (auto simp: transactionCreate_def Let_def)
      then show ?thesis
        using nf resp r(3) transactionCreate_rowsOf[OF _ c, of userId] by simp
    qed
  qed
next
  case (ListTransactionsForPeriod i)
  let ?P = "\<lambda>r. s_id r = i \<and> s_userId r = userId"
  show ?thesis
  proof (cases "find ?P (savings s)")
    case None
    then show ?thesis using run ListTransactionsForPeriod
      by (auto simp: listTransactionsForPeriod_def)
  next
    case (Some r)
    then show ?thesis using run ListTransactionsForPeriod
      by (auto simp: listTransactionsForPeriod_def Let_def rev_map[symmetric]
          map_c_transaction set_orderByDateDesc split: if_splits)
  qed
next
  case (ListTransactions qlimit qoffset)
  define page where "page = fst (listTransactions userId qlimit qoffset s)"
  have resp: "resp = Payload
      (concat (map (\<lambda>(t, r). case r of None \<Rightarrow> [] | Some x \<Rightarrow> [x]) page)) (map fst page)"
    and s': "s' = s"
    using run ListTransactions by (auto simp: Let_def page_def)
  have pg: "\<And>t r. (t, r) \<in> set page \<Longrightarrow>
      t \<in> set (transactions s) \<and> t_userId t = userId \<and> r = savingOf s t"
  proof -
    fix t r assume "(t, r) \<in> set page"
    then have "t \<in> set (take (case qlimit of None \<Rightarrow> 50 | Some n \<Rightarrow> n)
        (drop (case qoffset of None \<Rightarrow> 0 | Some n \<Rightarrow> n)
          (orderByDateDesc (filter (\<lambda>t. t_userId t = userId) (transactions s)))))"
      and r: "r = savingOf s t"
      by (auto simp: page_def listTransactions_def Let_def)
    then have "t \<in> set (orderByDateDesc (filter (\<lambda>t. t_userId t = userId) (transactions s)))"
      by (meson in_set_takeD in_set_dropD)
    then show "t \<in> set (transactions s) \<and> t_userId t = userId \<and> r = savingOf s t"
      using r by (simp add: set_orderByDateDesc)
  qed
  have "\<forall>x \<in> set (concat (map (\<lambda>(t, r). case r of None \<Rightarrow> [] | Some x \<Rightarrow> [x]) page)).
      s_userId x = userId"
  proof
    fix x assume "x \<in> set (concat (map (\<lambda>(t, r). case r of None \<Rightarrow> [] | Some x \<Rightarrow> [x]) page))"
    then obtain t where "(t, Some x) \<in> set page" by (auto split: option.splits)
    then show "s_userId x = userId" using pg[of t "Some x"] savingOf_owner[OF wf, of t x] by simp
  qed
  moreover have "\<forall>t \<in> set (map fst page). t_userId t = userId" using pg by auto
  ultimately show ?thesis using resp s' ListTransactions by simp
next
  case (UpdateTransaction i p)
  let ?P = "\<lambda>t. t_id t = i \<and> t_userId t = userId"
  show ?thesis
  proof (cases "find ?P (transactions s)")
    case None
    then show ?thesis using run UpdateTransaction by (auto simp: updateTransaction_def)
  next
    case (Some t)
    have t: "t \<in> set (transactions s)" "t_id t = i" "t_userId t = userId"
      using find_SomeD[OF Some] by simp_all
    have nf: "\<not> foreignTarget userId req s"
      using foreignTransaction_not_found[OF wf, of userId i] Some UpdateTransaction by auto
    have resp: "resp = Payload (case savingOf s t of None \<Rightarrow> [] | Some x \<Rightarrow> [x]) [patchData p t]"
      and s': "s' = transactionUpdate (t_id t) (patchData p) s"
      using run UpdateTransaction Some t(2) by (auto simp: updateTransaction_def)
    have "\<forall>x \<in> set (case savingOf s t of None \<Rightarrow> [] | Some x \<Rightarrow> [x]). s_userId x = userId"
      using savingOf_owner[OF wf t(1)] t(3) by (auto split: option.splits)
    then show ?thesis
      using nf resp s' t(3) transactionUpdate_rowsOf[OF wf t(1,3)]
      by (simp add: patchData_keeps)
  qed
next
  case (DeleteTransaction i)
  let ?P = "\<lambda>t. t_id t = i \<and> t_userId t = userId"
  show ?thesis
  proof (cases "find ?P (transactions s)")
    case None
    then show ?thesis using run DeleteTransaction by (auto simp: deleteTransaction_def)
  next
    case (Some t)
    have t: "t \<in> set (transactions s)" "t_id t = i" "t_userId t = userId"
      using find_SomeD[OF Some] by simp_all
    have nf: "\<not> foreignTarget userId req s"
      using foreignTransaction_not_found[OF wf, of userId i] Some DeleteTransaction by auto
    have "resp = Payload [] []" "s' = transactionDelete (t_id t) s"
      using run DeleteTransaction Some t(2) by (auto simp: deleteTransaction_def)
    then show ?thesis using nf transactionDelete_rowsOf[OF wf t(1,3)] by simp
  qed
qed

theorem handle_isolation_witness:
  "wellFormed ledgerDb
   \<and> handle 2 0 (DeleteTransaction 2) ledgerDb
       = (Failure (NotFound ''Transaction not found''), ledgerDb)
   \<and> foreignTarget 2 (DeleteTransaction 2) ledgerDb
   \<and> rowsOf 1 (snd (handle 2 0 (DeleteTransaction 2) ledgerDb)) = rowsOf 1 ledgerDb
   \<and> transactionRows (fst (handle 1 0 (ListTransactions None None) ledgerDb))
       = [expense 3 30 1735754400000, expense 2 20 1735732800000, expense 1 10 1735718400000]
   \<and> map t_userId (transactionRows (fst (handle 1 0 (ListTransactions None None) ledgerDb)))
       = [1, 1, 1]
   \<and> map s_userId (savingRows (fst (handle 1 0 (ListTransactions None None) ledgerDb)))
       = [1, 1, 1]"
proof -
  have f: "foreignTarget 2 (DeleteTransaction 2) ledgerDb"
    by (simp add: foreignTransaction_def ledgerDb_def expense_def)
  show ?thesis
    using handle_isolation[OF wellFormed_ledgerDb handle_foreign_delete]
      handle_isolation[OF wellFormed_ledgerDb handle_own_list]
      wellFormed_ledgerDb f
    by (simp add: handle_foreign_delete handle_own_list expense_def januarySaving_def
        del: handle.simps)
qed

text \<open>
  The claim as it is stated fails: user 2 creates a transaction with the amount \<open>-1\<close> in
  the saving of user 1 and is answered with the validation error, not with the not-found
  error.
\<close>

theorem handle_isolation_counterexample:
  "foreignTarget 2
     (CreateTransaction \<lparr>b_amount = Some (- 1), b_description = None, b_date = None,
                          b_savingId = Some 1\<rparr>) ledgerDb
   \<and> handle 2 0
       (CreateTransaction \<lparr>b_amount = Some (- 1), b_description = None, b_date = None,
                            b_savingId = Some 1\<rparr>) ledgerDb
     = (Failure (ValidationError ''Amount must be positive''), ledgerDb)"
  by (simp add: foreignSaving_def createTransaction_def truthy_def ledgerDb_def
      januarySaving_def)

subsection \<open>The week number on the monthly path (C10)\<close>

text \<open>
  C10. When the period of the body is \<open>monthly\<close>, given or by default, the week number of
  the body has no effect: the response and the database are those of the same body with
  any other week number. When the request succeeds, the row returned has no week number,
  belongs to the caller and is in the table afterwards, and the database after the request
  is exactly this: the row is looked up among the rows of the caller for that month and
  year that have no week number; when there is none, the row returned is appended with the
  next id; when there is one, the rows with the id of the first such row get the income,
  target, available amount, daily budget and period of the row returned, and keep all
  other fields, the week number among them. No other row and no transaction changes.
\<close>

theorem upsertPeriod_monthly_ignores_weekNumber:
  assumes "b_period body = None \<or> b_period body = Some ''monthly''"
  shows "upsertPeriod userId (body\<lparr>b_weekNumber := w\<rparr>) s = upsertPeriod userId body s
     \<and> (\<forall>row s'. upsertPeriod userId body s = (Inr row, s') \<longrightarrow>
           weekNumber row = None \<and> s_userId row = userId \<and> row \<in> set (savings s')
           \<and> transactions s' = transactions s
           \<and> (case find (\<lambda>r. s_userId r = userId \<and> Some (month r) = b_month body
                               \<and> Some (year r) = b_year body \<and> weekNumber r = None)
                     (savings s) of
                 None \<Rightarrow>
                   s_id row = nextSavingId s
                   \<and> s' = s\<lparr>savings := savings s @ [row], nextSavingId := nextSavingId s + 1\<rparr>
               | Some existingSaving \<Rightarrow>
                   row = existingSaving
                           \<lparr>monthlyIncome := monthlyIncome row, savingTarget := savingTarget row,
                            availableAmount := availableAmount row,
                            dailyBudget := dailyBudget row, period := period row\<rparr>
                   \<and> s' = s\<lparr>savings :=
                              map (\<lambda>r. if s_id r = s_id existingSaving
                                        then r\<lparr>monthlyIncome := monthlyIncome row,
                                               savingTarget := savingTarget row,
                                               availableAmount := availableAmount row,
                                               dailyBudget := dailyBudget row,
                                               period := period row\<rparr>
                                        else r) (savings s)\<rparr>))"
proof -
  have nw: "periodOf body \<noteq> ''weekly''" using assms by (auto simp: periodOf_def)
  have chk: "checkBody (body\<lparr>b_weekNumber := w\<rparr>)
      = (case checkBody body of Inl e \<Rightarrow> Inl e | Inr d \<Rightarrow> Inr (d\<lparr>d_weekNumber := w\<rparr>))"
    using nw by (simp add: checkBody_def periodOf_def Let_def)
  have wr: "\<And>d. d_period d \<noteq> ''weekly'' \<Longrightarrow>
      writePeriod userId (d\<lparr>d_weekNumber := w\<rparr>) s = writePeriod userId d s"
  proof -
    fix d :: periodData
    assume "d_period d \<noteq> ''weekly''"
    moreover have "updateData (d\<lparr>d_weekNumber := w\<rparr>) = updateData d"
      by (rule ext) (simp add: updateData_def)
    moreover have "createData userId (d\<lparr>d_weekNumber := w\<rparr>) None = createData userId d None"
      by (simp add: createData_def)
    ultimately show "writePeriod userId (d\<lparr>d_weekNumber := w\<rparr>) s = writePeriod userId d s"
      by (simp add: writePeriod_def split: option.splits)
  qed
  have per: "\<And>d. checkBody body = Inr d \<Longrightarrow>
      d_period d \<noteq> ''weekly'' \<and> b_month body = Some (d_month d) \<and> b_year body = Some (d_year d)"
    using nw unfolding checkBody_Inr_iff by auto
  have same: "upsertPeriod userId (body\<lparr>b_weekNumber := w\<rparr>) s = upsertPeriod userId body s"
    unfolding upsertPeriod_def chk
    by (cases "checkBody body") (simp_all add: wr per)
  let ?exact = "\<lambda>row s'.
           weekNumber row = None \<and> s_userId row = userId \<and> row \<in> set (savings s')
           \<and> transactions s' = transactions s
           \<and> (case find (\<lambda>r. s_userId r = userId \<and> Some (month r) = b_month body
                               \<and> Some (year r) = b_year body \<and> weekNumber r = None)
                     (savings s) of
                 None \<Rightarrow>
                   s_id row = nextSavingId s
                   \<and> s' = s\<lparr>savings := savings s @ [row], nextSavingId := nextSavingId s + 1\<rparr>
               | Some existingSaving \<Rightarrow>
                   row = existingSaving
                           \<lparr>monthlyIncome := monthlyIncome row, savingTarget := savingTarget row,
                            availableAmount := availableAmount row,
                            dailyBudget := dailyBudget row, period := period row\<rparr>
                   \<and> s' = s\<lparr>savings :=
                              map (\<lambda>r. if s_id r = s_id existingSaving
                                        then r\<lparr>monthlyIncome := monthlyIncome row,
                                               savingTarget := savingTarget row,
                                               availableAmount := availableAmount row,
                                               dailyBudget := dailyBudget row,
                                               period := period row\<rparr>
                                        else r) (savings s)\<rparr>)"
  have written: "\<forall>row s'. upsertPeriod userId body s = (Inr row, s') \<longrightarrow> ?exact row s'"
  proof (intro allI impI)
    fix row s' assume "upsertPeriod userId body s = (Inr row, s')"
    then obtain d where d: "checkBody body = Inr d" and w: "writePeriod userId d s = (row, s')"
      by (rule upsertPeriod_Inr)
    note p = per[OF d]
    note r = writePeriod_row[OF w]
    let ?P = "\<lambda>r. s_userId r = userId \<and> month r = d_month d \<and> year r = d_year d
                         \<and> weekNumber r = None"
    have P: "(\<lambda>r. s_userId r = userId \<and> Some (month r) = b_month body
                               \<and> Some (year r) = b_year body \<and> weekNumber r = None) = ?P"
      using p by auto
    have upd: "updateData d = (\<lambda>r. r\<lparr>monthlyIncome := monthlyIncome row,
                                               savingTarget := savingTarget row,
                                               availableAmount := availableAmount row,
                                               dailyBudget := dailyBudget row,
                                               period := period row\<rparr>)"
      using r by (intro ext) (simp add: updateData_def)
    show "?exact row s'"
    proof (cases "find ?P (savings s)")
      case None
      then show ?thesis
        using w p r unfolding P by (auto simp: writePeriod_def savingCreate_def Let_def)
    next
      case (Some ex)
      have "row = updateData d ex"
        and "s' = s\<lparr>savings := map (\<lambda>r. if s_id r = s_id ex then updateData d r else r)
                      (savings s)\<rparr>"
        using w p Some by (auto simp: writePeriod_def savingUpdate_def)
      then show ?thesis
        using r p Some unfolding P upd by simp
    qed
  qed
  show ?thesis using same written by (rule conjI)
qed

theorem upsertPeriod_monthly_ignores_weekNumber_witness:
  "(b_period monthlyBody = None \<or> b_period monthlyBody = Some ''monthly'')
   \<and> upsertPeriod 1 (monthlyBody\<lparr>b_weekNumber := Some 3\<rparr>) emptyDb
       = (Inr firstRow, afterFirst)
   \<and> weekNumber firstRow = None
   \<and> afterFirst = emptyDb\<lparr>savings := savings emptyDb @ [firstRow],
                              nextSavingId := nextSavingId emptyDb + 1\<rparr>
   \<and> upsertPeriod 1 (monthlyBody\<lparr>b_monthlyIncome := Some 6300, b_weekNumber := Some 3\<rparr>)
         afterFirst
       = (Inr secondRow, afterSecond)
   \<and> weekNumber secondRow = None
   \<and> map weekNumber (savings afterSecond) = [None]"
proof -
  have m: "b_period monthlyBody = None \<or> b_period monthlyBody = Some ''monthly''"
    by (simp add: monthlyBody_def)
  have m2: "b_period (monthlyBody\<lparr>b_monthlyIncome := Some 6300\<rparr>) = None
      \<or> b_period (monthlyBody\<lparr>b_monthlyIncome := Some 6300\<rparr>) = Some ''monthly''"
    by (simp add: monthlyBody_def)
  note first = upsertPeriod_monthly_ignores_weekNumber[OF m, of 1 "Some 3" emptyDb]
  note second = upsertPeriod_monthly_ignores_weekNumber[OF m2, of 1 "Some 3" afterFirst]
  have a: "upsertPeriod 1 (monthlyBody\<lparr>b_weekNumber := Some 3\<rparr>) emptyDb
      = (Inr firstRow, afterFirst)"
    using first upsert_monthlyBody by (simp only:)
  have b: "upsertPeriod 1 (monthlyBody\<lparr>b_monthlyIncome := Some 6300, b_weekNumber := Some 3\<rparr>)
        afterFirst = (Inr secondRow, afterSecond)"
    using second upsert_monthlyBody_again by (simp only:)
  have c: "weekNumber firstRow = None"
    using first upsert_monthlyBody by blast
  have d: "weekNumber secondRow = None"
    using second upsert_monthlyBody_again by blast
  have e: "afterFirst = emptyDb\<lparr>savings := savings emptyDb @ [firstRow],
                              nextSavingId := nextSavingId emptyDb + 1\<rparr>"
    by (simp add: afterFirst_def emptyDb_def)
  have f: "map weekNumber (savings afterSecond) = [None]"
    using d by (simp add: afterSecond_def)
  show ?thesis using m a b c d e f by simp
qed

end
